theory Spec2Isabelle
  imports Main "HOL-Library.Signed_Division" "HOL-Library.Sublist"
    "HOL-Library.Product_Lexorder" "HOL-Library.Monad_Syntax"
begin

section \<open>Go integers and formatting\<close>

text \<open>
  Go's \<open>int\<close> is a 64-bit two's complement integer on the platforms the server is built
  for. Values are modelled as \<open>int\<close>; \<open>int64\<close> is the wrap-around that Go arithmetic
  applies to a result. Go's \<open>/\<close> and \<open>%\<close> truncate towards zero: they are \<open>sdiv\<close> and
  \<open>smod\<close>.
\<close>

definition int64 :: "int \<Rightarrow> int" where
  "int64 k = signed_take_bit 63 k"

definition maxInt64 :: int where
  "maxInt64 = 2 ^ 63 - 1"

definition minInt64 :: int where
  "minInt64 = - (2 ^ 63)"

definition in_int64 :: "int \<Rightarrow> bool" where
  "in_int64 k = (minInt64 \<le> k \<and> k \<le> maxInt64)"

text \<open>The verb \<open>%d\<close> of \<open>fmt.Sprintf\<close>: decimal digits, with a minus sign when negative.\<close>

definition digit_char :: "nat \<Rightarrow> char" where
  "digit_char d = char_of (48 + d)"

fun decimal :: "nat \<Rightarrow> string" where
  "decimal n = (if n < 10 then [digit_char n] else decimal (n div 10) @ [digit_char (n mod 10)])"

declare decimal.simps [simp del]

definition fmt_d :: "int \<Rightarrow> string" where
  "fmt_d k = (if k < 0 then CHR ''-'' # decimal (nat (- k)) else decimal (nat k))"

text \<open>\<open>formatTimeLeft\<close> (main.go, lines 326 to 342).\<close>

definition formatTimeLeft :: "int \<Rightarrow> string" where
  "formatTimeLeft seconds =
     (if seconds \<le> 0 then ''Expired''
      else
        let days = seconds sdiv 86400;
            hours = (seconds smod 86400) sdiv 3600;
            minutes = (seconds smod 3600) sdiv 60
        in if days > 0 then fmt_d days @ ''d '' @ fmt_d hours @ ''h''
           else if hours > 0 then fmt_d hours @ ''h '' @ fmt_d minutes @ ''m''
           else fmt_d minutes @ ''m'')"

section \<open>Request parameters\<close>

text \<open>
  \<open>strconv.Atoi\<close>: an optional sign followed by one or more decimal digits. A syntax error
  gives the value 0; a value outside the 64-bit range gives the nearest bound and a range
  error.
\<close>

datatype num_error = ErrSyntax | ErrRange

definition is_digit :: "char \<Rightarrow> bool" where
  "is_digit c = (48 \<le> (of_char c :: nat) \<and> (of_char c :: nat) \<le> 57)"

definition digits_value :: "string \<Rightarrow> nat" where
  "digits_value ds = foldl (\<lambda>acc c. acc * 10 + ((of_char c :: nat) - 48)) 0 ds"

definition split_sign :: "string \<Rightarrow> bool \<times> string" where
  "split_sign s =
     (case s of
        [] \<Rightarrow> (False, [])
      | c # r \<Rightarrow> if c = CHR ''-'' then (True, r)
                 else if c = CHR ''+'' then (False, r)
                 else (False, s))"

definition Atoi :: "string \<Rightarrow> int \<times> num_error option" where
  "Atoi s =
     (let (neg, ds) = split_sign s in
      if ds = [] \<or> \<not> list_all is_digit ds then (0, Some ErrSyntax)
      else
        let v = (if neg then - int (digits_value ds) else int (digits_value ds)) in
        if v > maxInt64 then (maxInt64, Some ErrRange)
        else if v < minInt64 then (minInt64, Some ErrRange)
        else (v, None))"

text \<open>
  \<open>r.URL.Query().Get(key)\<close>: the first value stored under the key, or the empty string
  when the key is absent.
\<close>

type_synonym url_values = "string \<Rightarrow> string list option"

definition Get :: "url_values \<Rightarrow> string \<Rightarrow> string" where
  "Get vs key = (case vs key of None \<Rightarrow> [] | Some [] \<Rightarrow> [] | Some (v # _) \<Rightarrow> v)"

section \<open>The backing store\<close>

text \<open>
  The four tables the queries read. They belong to the game server; the dashboard only
  reads them. A table is a list of rows, so that nothing is assumed about keys: a
  reference may match no row, one row or several. The columns of a stored row are taken
  to hold values (not SQL NULL); NULL arises from the left joins.
\<close>

record auctionhouse_row =
  ah_id :: int
  ah_houseid :: int
  ah_itemguid :: int
  ah_itemowner :: int
  ah_buyoutprice :: int
  ah_time :: int
  ah_buyguid :: int
  ah_lastbid :: int
  ah_startbid :: int
  ah_deposit :: int

record item_instance_row =
  ii_guid :: int
  ii_itemEntry :: int
  ii_count :: int

record characters_row =
  c_guid :: int
  c_name :: string

record item_template_row =
  it_entry :: int
  it_name :: string
  it_Quality :: int
  it_ItemLevel :: int

record database =
  auctionhouse :: "auctionhouse_row list"
  item_instance :: "item_instance_row list"
  characters :: "characters_row list"
  item_template :: "item_template_row list"

subsection \<open>SQL values and operators\<close>

datatype sqlval = SNull | SInt int | SStr string

definition sql_int :: "int option \<Rightarrow> sqlval" where
  "sql_int v = (case v of None \<Rightarrow> SNull | Some k \<Rightarrow> SInt k)"

definition sql_str :: "string option \<Rightarrow> sqlval" where
  "sql_str v = (case v of None \<Rightarrow> SNull | Some s \<Rightarrow> SStr s)"

text \<open>\<open>COALESCE(v, d)\<close> with a constant second argument.\<close>

definition COALESCE :: "sqlval \<Rightarrow> sqlval \<Rightarrow> sqlval" where
  "COALESCE v d = (case v of SNull \<Rightarrow> d | _ \<Rightarrow> v)"

text \<open>
  \<open>LEFT JOIN t ON cond\<close>, for one row on the left: the rows of \<open>t\<close> that satisfy the
  condition, or a single all-NULL row (\<open>None\<close>) when there is none.
\<close>

definition left_join :: "('b \<Rightarrow> bool) \<Rightarrow> 'b list \<Rightarrow> 'b option list" where
  "left_join on t = (case filter on t of [] \<Rightarrow> [None] | ms \<Rightarrow> map Some ms)"

text \<open>
  Modelled from the spec: the collation of the name columns, which the schema (not part of
  the repository) declares. The spec calls the match case-insensitive; characters are
  compared after folding ASCII upper case to lower case.
\<close>

definition fold_case :: "char \<Rightarrow> char" where
  "fold_case c =
     (let n = (of_char c :: nat) in if 65 \<le> n \<and> n \<le> 90 then char_of (n + 32) else c)"

text \<open>
  The \<open>LIKE\<close> operator: \<open>%\<close> matches any run of characters, \<open>_\<close> exactly one character,
  and a backslash makes the character after it literal (a backslash that ends the pattern
  stands for itself). The first argument is the pattern, the second the column value.
\<close>

fun like_match :: "string \<Rightarrow> string \<Rightarrow> bool" where
  "like_match [] s = (s = [])"
| "like_match (p # ps) s =
     (if p = CHR ''%'' then
        (like_match ps s \<or> (case s of [] \<Rightarrow> False | _ # t \<Rightarrow> like_match (p # ps) t))
      else if p = CHR ''_'' then
        (case s of [] \<Rightarrow> False | _ # t \<Rightarrow> like_match ps t)
      else if p = CHR 0x5C then
        (case ps of
           [] \<Rightarrow> (case s of [] \<Rightarrow> False | c # t \<Rightarrow> fold_case c = fold_case p \<and> like_match [] t)
         | q # qs \<Rightarrow> (case s of [] \<Rightarrow> False | c # t \<Rightarrow> fold_case c = fold_case q \<and> like_match qs t))
      else
        (case s of [] \<Rightarrow> False | c # t \<Rightarrow> fold_case c = fold_case p \<and> like_match ps t))"

declare like_match.simps(2) [simp del]

text \<open>
  A \<open>WHERE\<close> condition is three-valued: \<open>None\<close> is SQL's unknown, which a NULL operand
  of \<open>LIKE\<close> produces. A row is kept only when the condition is true.
\<close>

definition LIKE :: "string option \<Rightarrow> string \<Rightarrow> bool option" where
  "LIKE v pat = (case v of None \<Rightarrow> None | Some s \<Rightarrow> Some (like_match pat s))"

definition sql_or :: "bool option \<Rightarrow> bool option \<Rightarrow> bool option" where
  "sql_or a b =
     (if a = Some True \<or> b = Some True then Some True
      else if a = Some False \<and> b = Some False then Some False
      else None)"

definition is_true :: "bool option \<Rightarrow> bool" where
  "is_true a = (a = Some True)"

text \<open>\<open>COUNT(DISTINCT e)\<close>: the number of different non-NULL values.\<close>

definition count_distinct :: "int option list \<Rightarrow> int" where
  "count_distinct vs = int (length (remdups [k. Some k \<leftarrow> vs]))"

text \<open>\<open>SUM(e)\<close> over non-NULL values: NULL when there is no row.\<close>

definition sql_sum :: "int list \<Rightarrow> sqlval" where
  "sql_sum vs = (if vs = [] then SNull else SInt (sum_list vs))"

text \<open>
  \<open>GROUP BY\<close>: each group is given by its first row and all its rows, groups in the order
  of their first rows.
\<close>

function group_by :: "('a \<Rightarrow> 'k) \<Rightarrow> 'a list \<Rightarrow> ('a \<times> 'a list) list" where
  "group_by key [] = []"
| "group_by key (x # xs) =
     (x, x # filter (\<lambda>y. key y = key x) xs) # group_by key (filter (\<lambda>y. key y \<noteq> key x) xs)"
  by pat_completeness auto
termination
  by (relation "measure (\<lambda>(key, xs). length xs)") (auto simp: less_Suc_eq_le)

subsection \<open>The four queries\<close>

text \<open>
  The \<open>FROM\<close> clause of the listing and search queries (main.go, lines 122 to 125 and 223
  to 226): the auction table left-joined with item instances, characters and item
  templates. The last join compares \<open>ii.itemEntry\<close>, which is NULL when no item instance
  was found, so it then finds no template.
\<close>

record listing_row =
  l_ah :: auctionhouse_row
  l_ii :: "item_instance_row option"
  l_c :: "characters_row option"
  l_it :: "item_template_row option"

definition listing_from :: "database \<Rightarrow> listing_row list" where
  "listing_from db =
     [\<lparr>l_ah = ah, l_ii = ii, l_c = c, l_it = tm\<rparr>.
        ah \<leftarrow> auctionhouse db,
        ii \<leftarrow> left_join (\<lambda>i. ah_itemguid ah = ii_guid i) (item_instance db),
        c \<leftarrow> left_join (\<lambda>ch. ah_itemowner ah = c_guid ch) (characters db),
        tm \<leftarrow> left_join (\<lambda>t. case ii of None \<Rightarrow> False | Some i \<Rightarrow> ii_itemEntry i = it_entry t)
               (item_template db)]"

text \<open>The sixteen selected columns (main.go, lines 115 to 121 and 216 to 222).\<close>

definition listing_select :: "listing_row \<Rightarrow> sqlval list" where
  "listing_select r =
     [SInt (ah_id (l_ah r)), SInt (ah_houseid (l_ah r)), SInt (ah_itemguid (l_ah r)),
      SInt (ah_itemowner (l_ah r)), SInt (ah_buyoutprice (l_ah r)),
      SInt (ah_time (l_ah r)), SInt (ah_buyguid (l_ah r)), SInt (ah_lastbid (l_ah r)),
      SInt (ah_startbid (l_ah r)), SInt (ah_deposit (l_ah r)),
      sql_int (map_option ii_itemEntry (l_ii r)), sql_int (map_option ii_count (l_ii r)),
      COALESCE (sql_str (map_option c_name (l_c r))) (SStr ''Unknown''),
      COALESCE (sql_str (map_option it_name (l_it r))) (SStr ''Unknown Item''),
      COALESCE (sql_int (map_option it_Quality (l_it r))) (SInt 0),
      COALESCE (sql_int (map_option it_ItemLevel (l_it r))) (SInt 0)]"

text \<open>The liveness predicate \<open>ah.time > UNIX_TIMESTAMP()\<close>.\<close>

definition live :: "int \<Rightarrow> auctionhouse_row \<Rightarrow> bool" where
  "live now ah = (ah_time ah > now)"

text \<open>
  \<open>ORDER BY ah.time ASC\<close> is a stable sort on the expiry: SQL leaves the order of rows
  with equal keys open, and the model keeps them in table order.
\<close>

definition order_by_time :: "listing_row list \<Rightarrow> listing_row list" where
  "order_by_time rs = sort_key (\<lambda>r. ah_time (l_ah r)) rs"

definition search_where :: "int \<Rightarrow> string \<Rightarrow> string \<Rightarrow> listing_row \<Rightarrow> bool" where
  "search_where now p1 p2 r =
     (live now (l_ah r) \<and>
      is_true (sql_or (LIKE (map_option it_name (l_it r)) p1)
                      (LIKE (map_option c_name (l_c r)) p2)))"

text \<open>The statistics query (main.go, lines 173 to 182) joins item instances only.\<close>

definition stats_from :: "database \<Rightarrow> (auctionhouse_row \<times> item_instance_row option) list" where
  "stats_from db =
     [(ah, ii).
        ah \<leftarrow> auctionhouse db,
        ii \<leftarrow> left_join (\<lambda>i. ah_itemguid ah = ii_guid i) (item_instance db)]"

definition stats_select ::
  "(auctionhouse_row \<times> item_instance_row option) list \<Rightarrow> sqlval list" where
  "stats_select rows =
     [SInt (int (length rows)),
      sql_sum (map (\<lambda>r. ah_buyoutprice (fst r)) rows),
      SInt (count_distinct (map (\<lambda>r. Some (ah_itemowner (fst r))) rows)),
      SInt (count_distinct (map (\<lambda>r. map_option ii_itemEntry (snd r)) rows))]"

text \<open>
  The seller query (main.go, lines 275 to 288). \<open>c.name IS NOT NULL\<close> holds exactly when
  a character row was joined. The groups are keyed by owner and by name under the
  collation. A group is never empty, so its \<open>SUM\<close> is a number.
\<close>

record seller_row =
  s_ah :: auctionhouse_row
  s_c :: "characters_row option"
  s_ii :: "item_instance_row option"

definition sellers_from :: "database \<Rightarrow> seller_row list" where
  "sellers_from db =
     [\<lparr>s_ah = ah, s_c = c, s_ii = ii\<rparr>.
        ah \<leftarrow> auctionhouse db,
        c \<leftarrow> left_join (\<lambda>ch. ah_itemowner ah = c_guid ch) (characters db),
        ii \<leftarrow> left_join (\<lambda>i. ah_itemguid ah = ii_guid i) (item_instance db)]"

definition sellers_where :: "int \<Rightarrow> seller_row \<Rightarrow> bool" where
  "sellers_where now r = (live now (s_ah r) \<and> s_c r \<noteq> None)"

definition sellers_key :: "seller_row \<Rightarrow> int \<times> string option" where
  "sellers_key r = (ah_itemowner (s_ah r), map_option (\<lambda>c. map fold_case (c_name c)) (s_c r))"

record seller_group =
  seller_name :: "string option"
  total_auctions :: int
  total_value :: int
  unique_items :: int

definition sellers_aggregate :: "seller_row \<times> seller_row list \<Rightarrow> seller_group" where
  "sellers_aggregate g =
     \<lparr>seller_name = map_option c_name (s_c (fst g)),
      total_auctions = int (length (snd g)),
      total_value = sum_list (map (\<lambda>r. ah_buyoutprice (s_ah r)) (snd g)),
      unique_items = count_distinct (map (\<lambda>r. map_option ii_itemEntry (s_ii r)) (snd g))\<rparr>"

text \<open>\<open>ORDER BY total_auctions DESC, total_value DESC\<close>, again as a stable sort.\<close>

definition sellers_order :: "seller_group list \<Rightarrow> seller_group list" where
  "sellers_order gs = sort_key (\<lambda>g. (- total_auctions g, - total_value g)) gs"

definition sellers_select :: "seller_group \<Rightarrow> sqlval list" where
  "sellers_select g =
     [sql_str (seller_name g), SInt (total_auctions g), SInt (total_value g),
      SInt (unique_items g)]"

text \<open>
  The queries the handlers send, with their arguments, and what the server answers at
  time \<open>now\<close>. A negative \<open>LIMIT\<close> or \<open>OFFSET\<close> argument is rejected by the server.
\<close>

datatype sql_query =
    ListingQuery int int
  | StatsQuery
  | BidQuery
  | SearchQuery string string
  | SellersQuery

datatype go_error =
    Unavailable string
  | BadArgument
  | ErrNoRows
  | ScanError nat
  | ArgCount

definition run_query :: "database \<Rightarrow> int \<Rightarrow> sql_query \<Rightarrow> go_error + sqlval list list" where
  "run_query db now q =
     (case q of
        ListingQuery limit offset \<Rightarrow>
          if limit < 0 \<or> offset < 0 then Inl BadArgument
          else Inr (take (nat limit) (drop (nat offset)
                 (map listing_select
                    (order_by_time (filter (\<lambda>r. live now (l_ah r)) (listing_from db))))))
      | StatsQuery \<Rightarrow>
          Inr [stats_select (filter (\<lambda>r. live now (fst r)) (stats_from db))]
      | BidQuery \<Rightarrow>
          Inr [[SInt (int (length
                 (filter (\<lambda>ah. ah_lastbid ah > 0 \<and> live now ah) (auctionhouse db))))]]
      | SearchQuery p1 p2 \<Rightarrow>
          Inr (take 100
                 (map listing_select
                    (order_by_time (filter (search_where now p1 p2) (listing_from db)))))
      | SellersQuery \<Rightarrow>
          Inr (map sellers_select
                 (sellers_order
                    (map sellers_aggregate
                       (group_by sellers_key (filter (sellers_where now) (sellers_from db)))))))"

section \<open>The server\<close>

subsection \<open>Decoding rows\<close>

text \<open>
  \<open>Scan\<close> of \<open>database/sql\<close> into an \<open>*int\<close> or a \<open>*string\<close>. NULL converts to neither;
  an integer must fit 64 bits; text converts to an integer when it parses as one.
  \<open>None\<close> stands for the error that \<open>Scan\<close> returns.
\<close>

definition scan_int :: "sqlval \<Rightarrow> int option" where
  "scan_int v =
     (case v of
        SNull \<Rightarrow> None
      | SInt k \<Rightarrow> if in_int64 k then Some k else None
      | SStr s \<Rightarrow> (case Atoi s of (k, None) \<Rightarrow> Some k | (_, Some _) \<Rightarrow> None))"

definition scan_string :: "sqlval \<Rightarrow> string option" where
  "scan_string v =
     (case v of SNull \<Rightarrow> None | SInt k \<Rightarrow> Some (fmt_d k) | SStr s \<Rightarrow> Some s)"

record AuctionItem =
  ID :: int
  HouseID :: int
  ItemGUID :: int
  ItemOwner :: int
  BuyoutPrice :: int
  Time :: int
  BuyGUID :: int
  LastBid :: int
  StartBid :: int
  Deposit :: int
  ItemEntry :: int
  ItemName :: string
  OwnerName :: string
  Count :: int
  Quality :: int
  ItemLevel :: int
  TimeLeft :: string

record AuctionHouseStats =
  TotalItems :: int
  TotalValue :: int
  ActiveBids :: int
  UniqueOwners :: int
  UniqueItems :: int

text \<open>
  The struct \<open>Seller\<close> is local to \<open>handleGetSellers\<close>; two of its field names are those
  of \<open>AuctionHouseStats\<close> and carry a prefix here.
\<close>

record Seller =
  Name :: string
  TotalAuctions :: int
  Seller_TotalValue :: int
  Seller_UniqueItems :: int

text \<open>
  \<open>rows.Scan\<close> of the listing and search loops (main.go, lines 142 to 147 and 245 to
  250), into a fresh \<open>AuctionItem\<close> whose \<open>TimeLeft\<close> is still empty.
\<close>

definition scan_auction :: "sqlval list \<Rightarrow> AuctionItem option" where
  "scan_auction row =
     (case row of
        [v0, v1, v2, v3, v4, v5, v6, v7, v8, v9, v10, v11, v12, v13, v14, v15] \<Rightarrow>
          do {
            id \<leftarrow> scan_int v0;
            houseid \<leftarrow> scan_int v1;
            itemguid \<leftarrow> scan_int v2;
            itemowner \<leftarrow> scan_int v3;
            buyoutprice \<leftarrow> scan_int v4;
            time \<leftarrow> scan_int v5;
            buyguid \<leftarrow> scan_int v6;
            lastbid \<leftarrow> scan_int v7;
            startbid \<leftarrow> scan_int v8;
            deposit \<leftarrow> scan_int v9;
            itementry \<leftarrow> scan_int v10;
            count \<leftarrow> scan_int v11;
            ownername \<leftarrow> scan_string v12;
            itemname \<leftarrow> scan_string v13;
            quality \<leftarrow> scan_int v14;
            itemlevel \<leftarrow> scan_int v15;
            Some \<lparr>ID = id, HouseID = houseid, ItemGUID = itemguid, ItemOwner = itemowner,
                  BuyoutPrice = buyoutprice, Time = time, BuyGUID = buyguid,
                  LastBid = lastbid, StartBid = startbid, Deposit = deposit,
                  ItemEntry = itementry, ItemName = itemname, OwnerName = ownername,
                  Count = count, Quality = quality, ItemLevel = itemlevel, TimeLeft = []\<rparr>
          }
      | _ \<Rightarrow> None)"

text \<open>
  The row loop (main.go, lines 139 to 162 and 242 to 265): a row that fails to decode is
  logged and skipped; for the others the clock is read and \<open>TimeLeft\<close> filled in. \<open>clock k\<close>
  is the \<open>k\<close>-th reading of \<open>time.Now().Unix()\<close> in the request.
\<close>

definition set_time_left :: "int \<Rightarrow> AuctionItem \<Rightarrow> AuctionItem" where
  "set_time_left now auction =
     (let timeLeft = int64 (Time auction - now)
      in auction\<lparr>TimeLeft := (if timeLeft > 0 then formatTimeLeft timeLeft else ''Expired'')\<rparr>)"

fun scan_auctions :: "(nat \<Rightarrow> int) \<Rightarrow> nat \<Rightarrow> sqlval list list \<Rightarrow> AuctionItem list" where
  "scan_auctions clock k [] = []"
| "scan_auctions clock k (row # rows) =
     (case scan_auction row of
        None \<Rightarrow> scan_auctions clock k rows
      | Some auction \<Rightarrow> set_time_left (clock k) auction # scan_auctions clock (Suc k) rows)"

text \<open>\<open>Scan\<close> into integers only, reporting the index of the first column that fails.\<close>

fun scan_ints :: "nat \<Rightarrow> sqlval list \<Rightarrow> go_error + int list" where
  "scan_ints i [] = Inr []"
| "scan_ints i (v # vs) =
     (case scan_int v of
        None \<Rightarrow> Inl (ScanError i)
      | Some k \<Rightarrow> (case scan_ints (Suc i) vs of Inl e \<Rightarrow> Inl e | Inr ks \<Rightarrow> Inr (k # ks)))"

definition scan_seller :: "sqlval list \<Rightarrow> Seller option" where
  "scan_seller row =
     (case row of
        [v0, v1, v2, v3] \<Rightarrow>
          do {
            name \<leftarrow> scan_string v0;
            auctions \<leftarrow> scan_int v1;
            val \<leftarrow> scan_int v2;
            items \<leftarrow> scan_int v3;
            Some \<lparr>Name = name, TotalAuctions = auctions, Seller_TotalValue = val,
                  Seller_UniqueItems = items\<rparr>
          }
      | _ \<Rightarrow> None)"

definition scan_sellers :: "sqlval list list \<Rightarrow> Seller list" where
  "scan_sellers rows = [s. Some s \<leftarrow> map scan_seller rows]"

subsection \<open>The environment of a request\<close>

text \<open>
  What a request sees of the outside world: the tables, the server's clock at the \<open>k\<close>-th
  query of the request, whether the driver fails that query (with which message), and the
  readings of the process clock.
\<close>

record env =
  tables :: database
  UNIX_TIMESTAMP :: "nat \<Rightarrow> int"
  fault :: "nat \<Rightarrow> string option"
  Now_Unix :: "nat \<Rightarrow> int"

definition Query :: "env \<Rightarrow> nat \<Rightarrow> sql_query \<Rightarrow> go_error + sqlval list list" where
  "Query e k q =
     (case fault e k of
        Some msg \<Rightarrow> Inl (Unavailable msg)
      | None \<Rightarrow> run_query (tables e) (UNIX_TIMESTAMP e k) q)"

definition QueryRow :: "env \<Rightarrow> nat \<Rightarrow> sql_query \<Rightarrow> go_error + sqlval list" where
  "QueryRow e k q =
     (case Query e k q of
        Inl err \<Rightarrow> Inl err
      | Inr [] \<Rightarrow> Inl ErrNoRows
      | Inr (row # _) \<Rightarrow> Inr row)"

subsection \<open>The handlers\<close>

text \<open>
  A handler returns the response and the queries it sent, in order. The body of a
  response is kept as data; an error body is the error itself or the text given to
  \<open>http.Error\<close>.
\<close>

datatype payload =
    ErrorText string
  | ErrorOf go_error
  | AuctionsPage "AuctionItem list" int int
  | Stats AuctionHouseStats
  | SearchResult "AuctionItem list" string
  | Sellers "Seller list"

datatype response = Response (status: nat) (body: payload)

record request =
  URL_Query :: url_values

definition handleGetAuctions :: "env \<Rightarrow> request \<Rightarrow> response \<times> sql_query list" where
  "handleGetAuctions e r =
     (let page0 = fst (Atoi (Get (URL_Query r) ''page''));
          page = (if page0 < 1 then 1 else page0);
          limit = 50;
          offset = int64 ((page - 1) * limit);
          q = ListingQuery limit offset
      in case Query e 0 q of
           Inl err \<Rightarrow> (Response 500 (ErrorOf err), [q])
         | Inr rows \<Rightarrow>
             (Response 200 (AuctionsPage (scan_auctions (Now_Unix e) 0 rows) page limit), [q]))"

definition handleGetStats :: "env \<Rightarrow> request \<Rightarrow> response \<times> sql_query list" where
  "handleGetStats e r =
     (case QueryRow e 0 StatsQuery of
        Inl err \<Rightarrow> (Response 500 (ErrorOf err), [StatsQuery])
      | Inr row \<Rightarrow>
          (case scan_ints 0 row of
             Inl err \<Rightarrow> (Response 500 (ErrorOf err), [StatsQuery])
           | Inr [items, val, owners, uitems] \<Rightarrow>
               (let stats = \<lparr>TotalItems = items, TotalValue = val, ActiveBids = 0,
                             UniqueOwners = owners, UniqueItems = uitems\<rparr>;
                    stats' =
                      (case QueryRow e 1 BidQuery of
                         Inl err \<Rightarrow> stats
                       | Inr row2 \<Rightarrow>
                           (case scan_ints 0 row2 of
                              Inr [bids] \<Rightarrow> stats\<lparr>ActiveBids := bids\<rparr>
                            | _ \<Rightarrow> stats))
                in (Response 200 (Stats stats'), [StatsQuery, BidQuery]))
           | Inr _ \<Rightarrow> (Response 500 (ErrorOf ArgCount), [StatsQuery])))"

definition handleSearch :: "env \<Rightarrow> request \<Rightarrow> response \<times> sql_query list" where
  "handleSearch e r =
     (let searchTerm = Get (URL_Query r) ''q'' in
      if searchTerm = [] then (Response 400 (ErrorText ''Search term required''), [])
      else
        let searchPattern = ''%'' @ searchTerm @ ''%'';
            q = SearchQuery searchPattern searchPattern
        in case Query e 0 q of
             Inl err \<Rightarrow> (Response 500 (ErrorOf err), [q])
           | Inr rows \<Rightarrow>
               (Response 200 (SearchResult (scan_auctions (Now_Unix e) 0 rows) searchTerm), [q]))"

definition handleGetSellers :: "env \<Rightarrow> request \<Rightarrow> response \<times> sql_query list" where
  "handleGetSellers e r =
     (case Query e 0 SellersQuery of
        Inl err \<Rightarrow> (Response 500 (ErrorOf err), [SellersQuery])
      | Inr rows \<Rightarrow> (Response 200 (Sellers (scan_sellers rows)), [SellersQuery]))"

subsection \<open>Reading a response\<close>

definition response_auctions :: "response \<Rightarrow> AuctionItem list" where
  "response_auctions resp =
     (case body resp of
        AuctionsPage auctions _ _ \<Rightarrow> auctions
      | SearchResult auctions _ \<Rightarrow> auctions
      | _ \<Rightarrow> [])"

definition response_sellers :: "response \<Rightarrow> Seller list" where
  "response_sellers resp = (case body resp of Sellers sellers \<Rightarrow> sellers | _ \<Rightarrow> [])"

section \<open>Sample data\<close>

text \<open>
  A small store used to run the handlers: four auctions expiring at 2000, 900, 1500 and
  3000. Auction 3 belongs to a character that does not exist and holds an item without a
  template; the item instance of auction 4 does not exist.
\<close>

definition sample_auction :: "int \<Rightarrow> int \<Rightarrow> int \<Rightarrow> int \<Rightarrow> int \<Rightarrow> int \<Rightarrow> auctionhouse_row" where
  "sample_auction i guid owner buyout expiry bid =
     \<lparr>ah_id = i, ah_houseid = 2, ah_itemguid = guid, ah_itemowner = owner,
      ah_buyoutprice = buyout, ah_time = expiry, ah_buyguid = 0, ah_lastbid = bid,
      ah_startbid = 10, ah_deposit = 5\<rparr>"

definition sample_db :: database where
  "sample_db =
     \<lparr>auctionhouse =
        [sample_auction 1 101 7 5000 2000 0, sample_auction 2 102 8 700 900 0,
         sample_auction 3 103 9 100 1500 20, sample_auction 4 104 7 300 3000 0],
      item_instance =
        [\<lparr>ii_guid = 101, ii_itemEntry = 55, ii_count = 1\<rparr>,
         \<lparr>ii_guid = 102, ii_itemEntry = 55, ii_count = 2\<rparr>,
         \<lparr>ii_guid = 103, ii_itemEntry = 56, ii_count = 3\<rparr>],
      characters = [\<lparr>c_guid = 7, c_name = ''Thrall''\<rparr>, \<lparr>c_guid = 8, c_name = ''Jaina''\<rparr>],
      item_template =
        [\<lparr>it_entry = 55, it_name = ''Linen Cloth'', it_Quality = 1, it_ItemLevel = 5\<rparr>]\<rparr>"

definition sample_env :: "int \<Rightarrow> env" where
  "sample_env now =
     \<lparr>tables = sample_db, UNIX_TIMESTAMP = (\<lambda>_. now), fault = (\<lambda>_. None),
      Now_Unix = (\<lambda>_. now)\<rparr>"

definition bids_down_env :: env where
  "bids_down_env = (sample_env 1000)\<lparr>fault := (\<lambda>k. if k = 1 then Some ''bad connection'' else None)\<rparr>"

definition no_params :: request where
  "no_params = \<lparr>URL_Query = Map.empty\<rparr>"

definition page_request :: "string \<Rightarrow> request" where
  "page_request p = \<lparr>URL_Query = [''page'' \<mapsto> [p]]\<rparr>"

definition search_request :: "string \<Rightarrow> request" where
  "search_request q = \<lparr>URL_Query = [''q'' \<mapsto> [q]]\<rparr>"

section \<open>Notions used in the properties\<close>

text \<open>The store with the listings that have expired by time \<open>t\<close> deleted.\<close>

definition without_expired :: "int \<Rightarrow> env \<Rightarrow> env" where
  "without_expired t e =
     e\<lparr>tables := (tables e)\<lparr>auctionhouse := filter (live t) (auctionhouse (tables e))\<rparr>\<rparr>"

text \<open>
  A joined row as the response should show it: the columns of the auction, the entry and
  count of its item instance, and the names, quality and level found through the
  references, with the placeholder where a reference finds nothing. \<open>row_decodes\<close> tells
  when the row loop accepts the row: the item instance exists and every number fits a Go
  \<open>int\<close>.
\<close>

definition resolved :: "listing_row \<Rightarrow> AuctionItem" where
  "resolved r =
     \<lparr>ID = ah_id (l_ah r), HouseID = ah_houseid (l_ah r), ItemGUID = ah_itemguid (l_ah r),
      ItemOwner = ah_itemowner (l_ah r), BuyoutPrice = ah_buyoutprice (l_ah r),
      Time = ah_time (l_ah r), BuyGUID = ah_buyguid (l_ah r), LastBid = ah_lastbid (l_ah r),
      StartBid = ah_startbid (l_ah r), Deposit = ah_deposit (l_ah r),
      ItemEntry = (case l_ii r of None \<Rightarrow> 0 | Some i \<Rightarrow> ii_itemEntry i),
      ItemName = (case l_it r of None \<Rightarrow> ''Unknown Item'' | Some t \<Rightarrow> it_name t),
      OwnerName = (case l_c r of None \<Rightarrow> ''Unknown'' | Some c \<Rightarrow> c_name c),
      Count = (case l_ii r of None \<Rightarrow> 0 | Some i \<Rightarrow> ii_count i),
      Quality = (case l_it r of None \<Rightarrow> 0 | Some t \<Rightarrow> it_Quality t),
      ItemLevel = (case l_it r of None \<Rightarrow> 0 | Some t \<Rightarrow> it_ItemLevel t),
      TimeLeft = []\<rparr>"

definition row_decodes :: "listing_row \<Rightarrow> bool" where
  "row_decodes r =
     (l_ii r \<noteq> None \<and>
      list_all in_int64
        ([ah_id (l_ah r), ah_houseid (l_ah r), ah_itemguid (l_ah r), ah_itemowner (l_ah r),
          ah_buyoutprice (l_ah r), ah_time (l_ah r), ah_buyguid (l_ah r), ah_lastbid (l_ah r),
          ah_startbid (l_ah r), ah_deposit (l_ah r)] @
         (case l_ii r of None \<Rightarrow> [] | Some i \<Rightarrow> [ii_itemEntry i, ii_count i]) @
         (case l_it r of None \<Rightarrow> [] | Some t \<Rightarrow> [it_Quality t, it_ItemLevel t])))"

text \<open>
  Search as the specification words it: the term occurs in a name as a contiguous run of
  characters, upper and lower case taken as equal. \<open>matches_term\<close> looks at the names as
  stored, that of the item template and that of the owner's character; a reference that
  finds nothing has no name there. A term is \<open>wildcard_free\<close> when it holds none of the
  characters that \<open>LIKE\<close> reads as an operator.
\<close>

definition wildcard_free :: "string \<Rightarrow> bool" where
  "wildcard_free s = list_all (\<lambda>c. c \<noteq> CHR ''%'' \<and> c \<noteq> CHR ''_'' \<and> c \<noteq> CHR 0x5C) s"

definition contains_ci :: "string \<Rightarrow> string \<Rightarrow> bool" where
  "contains_ci s t = sublist (map fold_case t) (map fold_case s)"

definition matches_term :: "string \<Rightarrow> listing_row \<Rightarrow> bool" where
  "matches_term term x =
     ((case l_it x of None \<Rightarrow> False | Some t \<Rightarrow> contains_ci (it_name t) term) \<or>
      (case l_c x of None \<Rightarrow> False | Some c \<Rightarrow> contains_ci (c_name c) term))"

text \<open>
  For the seller rollup: whether a listing's owner is a row of the character table, the
  store with the listings of unknown owners deleted, the joined live listings of a
  character (by owner id, and by name under the collation), and the order the response
  is to have.
\<close>

definition has_owner :: "database \<Rightarrow> auctionhouse_row \<Rightarrow> bool" where
  "has_owner db ah = list_ex (\<lambda>c. c_guid c = ah_itemowner ah) (characters db)"

definition without_ownerless :: "env \<Rightarrow> env" where
  "without_ownerless e =
     e\<lparr>tables := (tables e)\<lparr>auctionhouse :=
        filter (has_owner (tables e)) (auctionhouse (tables e))\<rparr>\<rparr>"

definition listings_of :: "database \<Rightarrow> int \<Rightarrow> characters_row \<Rightarrow> seller_row list" where
  "listings_of db now c =
     filter (\<lambda>x. live now (s_ah x) \<and> ah_itemowner (s_ah x) = c_guid c \<and>
               (case s_c x of None \<Rightarrow> False
                | Some c' \<Rightarrow> map fold_case (c_name c') = map fold_case (c_name c)))
       (sellers_from db)"

definition seller_before :: "Seller \<Rightarrow> Seller \<Rightarrow> bool" where
  "seller_before a b =
     (TotalAuctions a > TotalAuctions b \<or>
      (TotalAuctions a = TotalAuctions b \<and> Seller_TotalValue a \<ge> Seller_TotalValue b))"

text \<open>
  A seller entry as the rollup is to show it for a character: the character's name, and
  the number, the summed buyout price and the number of different items of the joined
  live listings of that character. \<open>owner_key\<close> is what the query groups by: the owner
  id, and the name under the collation.
\<close>

definition owner_key :: "characters_row \<Rightarrow> int \<times> string" where
  "owner_key c = (c_guid c, map fold_case (c_name c))"

definition seller_entry :: "database \<Rightarrow> int \<Rightarrow> characters_row \<Rightarrow> Seller" where
  "seller_entry db now c =
     \<lparr>Name = c_name c,
      TotalAuctions = int (length (listings_of db now c)),
      Seller_TotalValue = sum_list (map (\<lambda>x. ah_buyoutprice (s_ah x)) (listings_of db now c)),
      Seller_UniqueItems =
        count_distinct (map (\<lambda>x. map_option ii_itemEntry (s_ii x)) (listings_of db now c))\<rparr>"

section \<open>The time-remaining label\<close>

lemma sdiv_nonneg: "0 \<le> a \<Longrightarrow> 0 < b \<Longrightarrow> (a::int) sdiv b = a div b"
  by (simp add: signed_divide_int_def sgn_if)

lemma smod_nonneg: "0 \<le> a \<Longrightarrow> 0 < b \<Longrightarrow> (a::int) smod b = a mod b"
  by (simp add: signed_modulo_int_def sgn_if)

lemma int64_id: "in_int64 k \<Longrightarrow> int64 k = k"
  by (simp add: in_int64_def int64_def minInt64_def maxInt64_def signed_take_bit_int_eq_self)

lemma formatTimeLeft_pos:
  assumes "0 < s"
  shows "formatTimeLeft s =
     (if 86400 \<le> s then fmt_d (s div 86400) @ ''d '' @ fmt_d (s mod 86400 div 3600) @ ''h''
      else if 3600 \<le> s then fmt_d (s div 3600) @ ''h '' @ fmt_d (s mod 3600 div 60) @ ''m''
      else fmt_d (s div 60) @ ''m'')"
proof -
  have d: "s sdiv 86400 = s div 86400" and m: "s smod 86400 = s mod 86400"
    and m2: "s smod 3600 = s mod 3600"
    using assms by (simp_all add: sdiv_nonneg smod_nonneg)
  have h: "(s mod 86400) sdiv 3600 = s mod 86400 div 3600"
    and mi: "(s mod 3600) sdiv 60 = s mod 3600 div 60"
    by (simp_all add: sdiv_nonneg)
  have days: "0 < s div 86400 \<longleftrightarrow> 86400 \<le> s"
    using assms by (simp add: pos_imp_zdiv_pos_iff)
  have small: "s < 86400 \<Longrightarrow> s mod 86400 = s" using assms by simp
  have hours: "s < 86400 \<Longrightarrow> (0 < s div 3600 \<longleftrightarrow> 3600 \<le> s)"
    using assms by (simp add: pos_imp_zdiv_pos_iff)
  have small2: "s < 3600 \<Longrightarrow> s mod 3600 = s" using assms by simp
  show ?thesis
    using assms
    by (auto simp: formatTimeLeft_def Let_def d m m2 h mi days small hours small2)
qed

lemma set_time_left_label:
  assumes "in_int64 (Time a - now)"
  shows "TimeLeft (set_time_left now a) = formatTimeLeft (Time a - now)"
  using assms by (simp add: set_time_left_def Let_def int64_id formatTimeLeft_def)

text \<open>
  \<open>fmt_d\<close> writes a number so that \<open>Atoi\<close> reads it back: it is the decimal numeral.
\<close>

lemma of_char_digit: "d < 10 \<Longrightarrow> (of_char (digit_char d) :: nat) = 48 + d"
  by (simp add: digit_char_def)

lemma is_digit_digit_char: "d < 10 \<Longrightarrow> is_digit (digit_char d)"
  by (simp add: is_digit_def of_char_digit)

lemma decimal_digits: "list_all is_digit (decimal n) \<and> decimal n \<noteq> []"
proof (induction n rule: decimal.induct)
  case (1 n)
  show ?case
  proof (cases "n < 10")
    case True
    then show ?thesis by (subst (1 2) decimal.simps) (simp add: is_digit_digit_char)
  next
    case False
    then show ?thesis using 1 by (subst (1 2) decimal.simps) (simp add: is_digit_digit_char)
  qed
qed

lemma digits_value_append:
  "digits_value (ds @ [c]) = digits_value ds * 10 + ((of_char c :: nat) - 48)"
  by (simp add: digits_value_def)

lemma digits_value_decimal: "digits_value (decimal n) = n"
proof (induction n rule: decimal.induct)
  case (1 n)
  show ?case
  proof (cases "n < 10")
    case True
    then show ?thesis
      by (subst decimal.simps) (simp add: digits_value_def of_char_digit)
  next
    case False
    then have "digits_value (decimal (n div 10)) = n div 10" using 1 by simp
    then show ?thesis using False
      by (subst decimal.simps) (simp add: digits_value_append of_char_digit)
  qed
qed

lemma decimal_no_sign: "split_sign (decimal n) = (False, decimal n)"
proof -
  obtain c r where d: "decimal n = c # r"
    using decimal_digits [of n] by (cases "decimal n") auto
  then have "is_digit c" using decimal_digits [of n] by simp
  then have "c \<noteq> CHR ''-''" "c \<noteq> CHR ''+''" by (auto simp: is_digit_def)
  then show ?thesis by (simp add: split_sign_def d)
qed

lemma Atoi_fmt_d: "in_int64 k \<Longrightarrow> Atoi (fmt_d k) = (k, None)"
proof (cases "k < 0")
  case True
  assume "in_int64 k"
  then show ?thesis using True decimal_digits [of "nat (- k)"]
    by (simp add: Atoi_def fmt_d_def split_sign_def digits_value_decimal in_int64_def
        maxInt64_def minInt64_def)
next
  case False
  assume "in_int64 k"
  then show ?thesis using False decimal_digits [of "nat k"]
    by (simp add: Atoi_def fmt_d_def decimal_no_sign digits_value_decimal in_int64_def
        maxInt64_def minInt64_def)
qed

text \<open>
  Claim C2. The formatter gives days and hours when at least one day remains, hours and
  minutes when less than a day but at least an hour remains, minutes otherwise, and
  "Expired" for zero or a negative number of seconds; 90000 seconds give "1d 1h", 5000
  give "1h 23m", 120 give "2m". The numbers are the whole days, the whole hours of the
  rest, and the whole minutes of the rest of the hour, in decimal.
\<close>

theorem formatTimeLeft_spec:
  "(s \<le> 0 \<longrightarrow> formatTimeLeft s = ''Expired'') \<and>
   (86400 \<le> s \<longrightarrow>
      formatTimeLeft s = fmt_d (s div 86400) @ ''d '' @ fmt_d (s mod 86400 div 3600) @ ''h'') \<and>
   (3600 \<le> s \<and> s < 86400 \<longrightarrow>
      formatTimeLeft s = fmt_d (s div 3600) @ ''h '' @ fmt_d (s mod 3600 div 60) @ ''m'') \<and>
   (0 < s \<and> s < 3600 \<longrightarrow> formatTimeLeft s = fmt_d (s div 60) @ ''m'') \<and>
   formatTimeLeft 90000 = ''1d 1h'' \<and> formatTimeLeft 5000 = ''1h 23m'' \<and>
   formatTimeLeft 120 = ''2m''"
proof -
  have e: "s \<le> 0 \<Longrightarrow> formatTimeLeft s = ''Expired''" by (simp add: formatTimeLeft_def)
  have a: "formatTimeLeft 90000 = ''1d 1h''" by code_simp
  have b: "formatTimeLeft 5000 = ''1h 23m''" by code_simp
  have c: "formatTimeLeft 120 = ''2m''" by code_simp
  show ?thesis using e a b c by (simp add: formatTimeLeft_pos)
qed

theorem formatTimeLeft_spec_witness:
  "(-5::int) \<le> 0 \<and> formatTimeLeft (-5) = ''Expired'' \<and> formatTimeLeft 0 = ''Expired'' \<and>
   (86400::int) \<le> 200000 \<and> formatTimeLeft 200000 = ''2d 7h'' \<and>
   (3600::int) \<le> 86399 \<and> (86399::int) < 86400 \<and> formatTimeLeft 86399 = ''23h 59m'' \<and>
   (0::int) < 59 \<and> (59::int) < 3600 \<and> formatTimeLeft 59 = ''0m''"
proof -
  have f: "fmt_d 2 = ''2''" "fmt_d 7 = ''7''" "fmt_d 23 = ''23''" "fmt_d 59 = ''59''"
    "fmt_d 0 = ''0''"
    by code_simp+
  show ?thesis
    using formatTimeLeft_spec [of "-5"] formatTimeLeft_spec [of 0]
      formatTimeLeft_spec [of 200000] formatTimeLeft_spec [of 86399]
      formatTimeLeft_spec [of 59]
    by (simp add: f)
qed

section \<open>The search term\<close>

text \<open>
  Claim C5. A search request whose \<open>q\<close> parameter is empty (or absent) is answered with
  status 400 and sends no query to the database; with a non-empty \<open>q\<close> the handler sends
  the search query, and its answer is not the 400 response.
\<close>

theorem handleSearch_term_required:
  "(Get (URL_Query r) ''q'' = [] \<longrightarrow>
      handleSearch e r = (Response 400 (ErrorText ''Search term required''), [])) \<and>
   (Get (URL_Query r) ''q'' \<noteq> [] \<longrightarrow>
      snd (handleSearch e r) =
        [SearchQuery (''%'' @ Get (URL_Query r) ''q'' @ ''%'')
           (''%'' @ Get (URL_Query r) ''q'' @ ''%'')] \<and>
      status (fst (handleSearch e r)) \<noteq> 400)"
  by (simp add: handleSearch_def Let_def split: sum.splits)

theorem handleSearch_term_required_witness:
  "Get (URL_Query no_params) ''q'' = [] \<and>
   Get (URL_Query (search_request [])) ''q'' = [] \<and>
   handleSearch (sample_env 1000) no_params =
     (Response 400 (ErrorText ''Search term required''), []) \<and>
   handleSearch (sample_env 1000) (search_request []) =
     (Response 400 (ErrorText ''Search term required''), []) \<and>
   Get (URL_Query (search_request ''cloth'')) ''q'' \<noteq> [] \<and>
   snd (handleSearch (sample_env 1000) (search_request ''cloth'')) =
     [SearchQuery ''%cloth%'' ''%cloth%''] \<and>
   status (fst (handleSearch (sample_env 1000) (search_request ''cloth''))) = 200"
proof -
  have g: "Get (URL_Query no_params) ''q'' = []"
    "Get (URL_Query (search_request [])) ''q'' = []"
    "Get (URL_Query (search_request ''cloth'')) ''q'' = ''cloth''"
    by (simp_all add: Get_def no_params_def search_request_def)
  have s: "status (fst (handleSearch (sample_env 1000) (search_request ''cloth''))) = 200"
    by code_simp
  show ?thesis
    using handleSearch_term_required [of no_params "sample_env 1000"]
      handleSearch_term_required [of "search_request []" "sample_env 1000"]
      handleSearch_term_required [of "search_request ''cloth''" "sample_env 1000"] s
    by (simp add: g)
qed

section \<open>Pages of the listing\<close>

lemma length_scan_auctions: "length (scan_auctions clock k rows) \<le> length rows"
  by (induction rows arbitrary: k) (auto split: option.splits simp: le_SucI)

lemma Atoi_syntax_value: "snd (Atoi s) = Some ErrSyntax \<Longrightarrow> fst (Atoi s) = 0"
  by (auto simp: Atoi_def Let_def split: prod.splits if_splits)

lemma Atoi_empty: "Atoi [] = (0, Some ErrSyntax)"
  by (simp add: Atoi_def split_sign_def)

lemma Atoi_one: "Atoi ''1'' = (1, None)"
  by (simp add: Atoi_def split_sign_def is_digit_def digits_value_def maxInt64_def minInt64_def)

lemma Get_missing: "vs key = None \<Longrightarrow> Get vs key = []"
  by (simp add: Get_def)

lemma int64_zero: "int64 0 = 0"
  by (simp add: int64_def)

lemma handleGetAuctions_page:
  "handleGetAuctions e r =
     (let page = max 1 (fst (Atoi (Get (URL_Query r) ''page'')));
          q = ListingQuery 50 (int64 ((page - 1) * 50))
      in case Query e 0 q of
           Inl err \<Rightarrow> (Response 500 (ErrorOf err), [q])
         | Inr rows \<Rightarrow>
             (Response 200 (AuctionsPage (scan_auctions (Now_Unix e) 0 rows) page 50), [q]))"
proof (cases "fst (Atoi (Get (URL_Query r) ''page'')) < 1")
  case True
  then have "max 1 (fst (Atoi (Get (URL_Query r) ''page''))) = 1" by simp
  then show ?thesis
    using True by (simp add: handleGetAuctions_def Let_def split: sum.splits)
next
  case False
  then have "max 1 (fst (Atoi (Get (URL_Query r) ''page''))) =
      fst (Atoi (Get (URL_Query r) ''page''))"
    by simp
  then show ?thesis
    using False by (simp add: handleGetAuctions_def Let_def split: sum.splits)
qed

text \<open>
  Claim C3. When the \<open>page\<close> parameter parses to an integer that is at least 1, the
  response to \<open>/api/auctions\<close> holds at most 50 auctions, and 50 is the \<open>LIMIT\<close> argument of
  the query that was sent.
\<close>

theorem handleGetAuctions_page_size:
  assumes "Atoi (Get (URL_Query r) ''page'') = (p, None)" and "1 \<le> p"
  shows "length (response_auctions (fst (handleGetAuctions e r))) \<le> 50 \<and>
     snd (handleGetAuctions e r) = [ListingQuery 50 (int64 ((p - 1) * 50))]"
proof -
  have rows: "length rows \<le> 50" if "Query e 0 (ListingQuery 50 off) = Inr rows" for rows off
    using that by (auto simp: Query_def run_query_def split: option.splits if_splits)
  have "length (scan_auctions (Now_Unix e) 0 rows) \<le> 50"
    if "Query e 0 (ListingQuery 50 off) = Inr rows" for rows off
    using rows [OF that] length_scan_auctions [of "Now_Unix e" 0 rows] by linarith
  then show ?thesis
    using assms
    by (auto simp: handleGetAuctions_page Let_def response_auctions_def split: sum.splits)
qed

theorem handleGetAuctions_page_size_witness:
  "Atoi (Get (URL_Query (page_request ''1'')) ''page'') = (1, None) \<and> (1::int) \<le> 1 \<and>
   length (response_auctions (fst (handleGetAuctions (sample_env 1000) (page_request ''1''))))
     \<le> 50 \<and>
   snd (handleGetAuctions (sample_env 1000) (page_request ''1'')) = [ListingQuery 50 0]"
proof -
  have a: "Atoi (Get (URL_Query (page_request ''1'')) ''page'') = (1, None)"
    by code_simp
  show ?thesis
    using handleGetAuctions_page_size [OF a, of "sample_env 1000"] a by (simp add: int64_zero)
qed

text \<open>
  Claim C4. When the \<open>page\<close> parameter is missing, is not a number, or parses to an integer
  below 1, the handler answers exactly as for \<open>page=1\<close>: the query has offset 0 and the
  page reported in the body is 1.
\<close>

theorem handleGetAuctions_default_page:
  assumes "URL_Query r ''page'' = None \<or>
     snd (Atoi (Get (URL_Query r) ''page'')) = Some ErrSyntax \<or>
     fst (Atoi (Get (URL_Query r) ''page'')) < 1"
  shows "handleGetAuctions e r = handleGetAuctions e (page_request ''1'') \<and>
     snd (handleGetAuctions e r) = [ListingQuery 50 0] \<and>
     (\<forall>as p l. body (fst (handleGetAuctions e r)) = AuctionsPage as p l \<longrightarrow> p = 1)"
proof -
  have "fst (Atoi (Get (URL_Query r) ''page'')) < 1"
    using assms by (auto simp: Get_missing Atoi_empty Atoi_syntax_value)
  then have p: "max 1 (fst (Atoi (Get (URL_Query r) ''page''))) = 1" by simp
  have q: "Get (URL_Query (page_request ''1'')) ''page'' = ''1''"
    by (simp add: page_request_def Get_def)
  show ?thesis
    by (simp add: handleGetAuctions_page p q Atoi_one Let_def int64_zero split: sum.splits)
qed

theorem handleGetAuctions_default_page_witness:
  "URL_Query no_params ''page'' = None \<and>
   handleGetAuctions (sample_env 1000) no_params =
     handleGetAuctions (sample_env 1000) (page_request ''1'') \<and>
   snd (handleGetAuctions (sample_env 1000) no_params) = [ListingQuery 50 0] \<and>
   snd (Atoi (Get (URL_Query (page_request ''abc'')) ''page'')) = Some ErrSyntax \<and>
   handleGetAuctions (sample_env 1000) (page_request ''abc'') =
     handleGetAuctions (sample_env 1000) (page_request ''1'') \<and>
   fst (Atoi (Get (URL_Query (page_request ''-3'')) ''page'')) < 1 \<and>
   handleGetAuctions (sample_env 1000) (page_request ''-3'') =
     handleGetAuctions (sample_env 1000) (page_request ''1'') \<and>
   map ID (response_auctions (fst (handleGetAuctions (sample_env 1000) (page_request ''-3''))))
     = [3, 1]"
proof -
  have a: "URL_Query no_params ''page'' = None" by (simp add: no_params_def)
  have b: "snd (Atoi (Get (URL_Query (page_request ''abc'')) ''page'')) = Some ErrSyntax"
    by code_simp
  have c: "fst (Atoi (Get (URL_Query (page_request ''-3'')) ''page'')) < 1"
    by code_simp
  have d: "map ID (response_auctions
      (fst (handleGetAuctions (sample_env 1000) (page_request ''1'')))) = [3, 1]"
    by code_simp
  have r1: "handleGetAuctions (sample_env 1000) no_params =
      handleGetAuctions (sample_env 1000) (page_request ''1'')"
    "snd (handleGetAuctions (sample_env 1000) no_params) = [ListingQuery 50 0]"
    using handleGetAuctions_default_page [of no_params "sample_env 1000"] a by blast+
  have r2: "handleGetAuctions (sample_env 1000) (page_request ''abc'') =
      handleGetAuctions (sample_env 1000) (page_request ''1'')"
    using handleGetAuctions_default_page [of "page_request ''abc''" "sample_env 1000"] b
    by blast
  have r3: "handleGetAuctions (sample_env 1000) (page_request ''-3'') =
      handleGetAuctions (sample_env 1000) (page_request ''1'')"
    using handleGetAuctions_default_page [of "page_request ''-3''" "sample_env 1000"] c
    by blast
  show ?thesis
    using a b c d r1 r2 by (simp add: r3)
qed

section \<open>Statistics\<close>

lemma stats_from_subset: "x \<in> set (stats_from db) \<Longrightarrow> fst x \<in> set (auctionhouse db)"
  by (auto simp: stats_from_def)

text \<open>
  Claim C6. When the aggregate query of \<open>/api/stats\<close> succeeds and decodes, and the
  bid-count query fails, the answer is still a 200 response with the aggregate figures,
  the count of active bids left at 0.
\<close>

theorem handleGetStats_bid_failure:
  assumes "QueryRow e 0 StatsQuery = Inr row"
    and "scan_ints 0 row = Inr [items, val, owners, uitems]"
    and "QueryRow e 1 BidQuery = Inl err"
  shows "handleGetStats e r =
     (Response 200 (Stats \<lparr>TotalItems = items, TotalValue = val, ActiveBids = 0,
         UniqueOwners = owners, UniqueItems = uitems\<rparr>), [StatsQuery, BidQuery])"
  using assms by (simp add: handleGetStats_def)

theorem handleGetStats_bid_failure_witness:
  "QueryRow bids_down_env 0 StatsQuery = Inr [SInt 3, SInt 5400, SInt 2, SInt 2] \<and>
   scan_ints 0 [SInt 3, SInt 5400, SInt 2, SInt 2] = Inr [3, 5400, 2, 2] \<and>
   QueryRow bids_down_env 1 BidQuery = Inl (Unavailable ''bad connection'') \<and>
   handleGetStats bids_down_env no_params =
     (Response 200 (Stats \<lparr>TotalItems = 3, TotalValue = 5400, ActiveBids = 0,
         UniqueOwners = 2, UniqueItems = 2\<rparr>), [StatsQuery, BidQuery])"
proof -
  have a: "QueryRow bids_down_env 0 StatsQuery = Inr [SInt 3, SInt 5400, SInt 2, SInt 2]"
    by code_simp
  have b: "scan_ints 0 [SInt 3, SInt 5400, SInt 2, SInt 2] = Inr [3, 5400, 2, 2]"
    by code_simp
  have c: "QueryRow bids_down_env 1 BidQuery = Inl (Unavailable ''bad connection'')"
    by code_simp
  show ?thesis
    using handleGetStats_bid_failure [OF a b c, of no_params] a b c by simp
qed

text \<open>
  Claim C10. When no listing satisfies the liveness predicate, the aggregate row carries
  NULL as the sum of the buyout prices; decoding NULL into the integer field fails at
  column 1, and \<open>/api/stats\<close> answers with status 500, not with a statistics object.
\<close>

theorem handleGetStats_no_live_listing:
  assumes "fault e 0 = None"
    and "\<forall>ah \<in> set (auctionhouse (tables e)). \<not> live (UNIX_TIMESTAMP e 0) ah"
  shows "QueryRow e 0 StatsQuery = Inr [SInt 0, SNull, SInt 0, SInt 0] \<and>
     handleGetStats e r = (Response 500 (ErrorOf (ScanError 1)), [StatsQuery])"
proof -
  have "filter (\<lambda>r. live (UNIX_TIMESTAMP e 0) (fst r)) (stats_from (tables e)) = []"
    using assms(2) by (auto simp: filter_empty_conv dest: stats_from_subset)
  then have q: "QueryRow e 0 StatsQuery = Inr [SInt 0, SNull, SInt 0, SInt 0]"
    using assms(1)
    by (simp add: QueryRow_def Query_def run_query_def stats_select_def sql_sum_def
        count_distinct_def)
  have "scan_ints 0 [SInt 0, SNull, SInt 0, SInt 0] = Inl (ScanError 1)"
    by (simp add: scan_int_def in_int64_def minInt64_def maxInt64_def)
  then show ?thesis using q by (simp add: handleGetStats_def)
qed

theorem handleGetStats_no_live_listing_witness:
  "fault (sample_env 5000) 0 = None \<and>
   filter (live (UNIX_TIMESTAMP (sample_env 5000) 0))
     (auctionhouse (tables (sample_env 5000))) = [] \<and>
   QueryRow (sample_env 5000) 0 StatsQuery = Inr [SInt 0, SNull, SInt 0, SInt 0] \<and>
   handleGetStats (sample_env 5000) no_params =
     (Response 500 (ErrorOf (ScanError 1)), [StatsQuery])"
proof -
  have a: "fault (sample_env 5000) 0 = None" by (simp add: sample_env_def)
  have b: "\<forall>ah \<in> set (auctionhouse (tables (sample_env 5000))).
      \<not> live (UNIX_TIMESTAMP (sample_env 5000) 0) ah"
    by (simp add: sample_env_def sample_db_def sample_auction_def live_def)
  have c: "filter (live (UNIX_TIMESTAMP (sample_env 5000) 0))
      (auctionhouse (tables (sample_env 5000))) = []"
    using b by (simp add: filter_empty_conv)
  show ?thesis
    using handleGetStats_no_live_listing [OF a b, of no_params] a c by simp
qed

section \<open>Expired listings\<close>

lemma in_int64_zero: "in_int64 0"
  by (simp add: in_int64_def minInt64_def maxInt64_def)

lemma scan_int_SInt: "scan_int (SInt k) = (if in_int64 k then Some k else None)"
  by (simp add: scan_int_def)

lemma scan_int_SNull: "scan_int SNull = None"
  by (simp add: scan_int_def)

lemma scan_string_SStr: "scan_string (SStr s) = Some s"
  by (simp add: scan_string_def)

lemma scan_listing_no_instance: "l_ii r = None \<Longrightarrow> scan_auction (listing_select r) = None"
  by (simp add: scan_auction_def listing_select_def sql_int_def scan_int_SNull scan_int_SInt)

lemma scan_listing:
  "scan_auction (listing_select r) = (if row_decodes r then Some (resolved r) else None)"
proof (cases "l_ii r")
  case None
  then show ?thesis by (simp add: scan_listing_no_instance row_decodes_def)
next
  case (Some i)
  show ?thesis
  proof (cases "l_c r")
    case None
    show ?thesis
    proof (cases "l_it r")
      case None
      then show ?thesis using Some \<open>l_c r = None\<close>
        by (simp add: scan_auction_def listing_select_def sql_int_def sql_str_def COALESCE_def
          scan_int_SInt scan_string_SStr row_decodes_def resolved_def in_int64_zero)
    next
      case (Some t)
      then show ?thesis using \<open>l_ii r = Some i\<close> \<open>l_c r = None\<close>
        by (simp add: scan_auction_def listing_select_def sql_int_def sql_str_def COALESCE_def
          scan_int_SInt scan_string_SStr row_decodes_def resolved_def in_int64_zero)
    qed
  next
    case (Some c)
    show ?thesis
    proof (cases "l_it r")
      case None
      then show ?thesis using \<open>l_ii r = Some i\<close> \<open>l_c r = Some c\<close>
        by (simp add: scan_auction_def listing_select_def sql_int_def sql_str_def COALESCE_def
          scan_int_SInt scan_string_SStr row_decodes_def resolved_def in_int64_zero)
    next
      case (Some t)
      then show ?thesis using \<open>l_ii r = Some i\<close> \<open>l_c r = Some c\<close>
        by (simp add: scan_auction_def listing_select_def sql_int_def sql_str_def COALESCE_def
          scan_int_SInt scan_string_SStr row_decodes_def resolved_def in_int64_zero)
    qed
  qed
qed


lemma filter_concat_map:
  assumes "\<And>x y. y \<in> set (f x) \<Longrightarrow> Q y = P x"
  shows "filter Q (concat (map f xs)) = concat (map f (filter P xs))"
proof (induction xs)
  case Nil
  show ?case by simp
next
  case (Cons x xs)
  have "filter Q (f x) = (if P x then f x else [])"
    using assms [of _ x] by (auto simp: filter_empty_conv filter_id_conv)
  then show ?case using Cons by simp
qed

lemma listing_from_filter:
  "listing_from (db\<lparr>auctionhouse := filter P (auctionhouse db)\<rparr>) =
     filter (\<lambda>r. P (l_ah r)) (listing_from db)"
  unfolding listing_from_def
  by (subst filter_concat_map [where P = P]) auto

lemma stats_from_filter:
  "stats_from (db\<lparr>auctionhouse := filter P (auctionhouse db)\<rparr>) =
     filter (\<lambda>r. P (fst r)) (stats_from db)"
  unfolding stats_from_def
  by (subst filter_concat_map [where P = P]) auto

lemma sellers_from_filter:
  "sellers_from (db\<lparr>auctionhouse := filter P (auctionhouse db)\<rparr>) =
     filter (\<lambda>r. P (s_ah r)) (sellers_from db)"
  unfolding sellers_from_def
  by (subst filter_concat_map [where P = P]) auto

lemma live_mono: "t \<le> now \<Longrightarrow> live now ah \<Longrightarrow> live t ah"
  by (simp add: live_def)

lemma filter_live_twice:
  assumes "t \<le> now" and "\<And>x. Q x \<Longrightarrow> live now (g x)"
  shows "filter Q (filter (\<lambda>x. live t (g x)) xs) = filter Q xs"
  using assms by (auto simp: filter_filter intro!: filter_cong dest: live_mono)

lemma run_query_without_expired:
  assumes "t \<le> now"
  shows "run_query (db\<lparr>auctionhouse := filter (live t) (auctionhouse db)\<rparr>) now q =
     run_query db now q"
proof (cases q)
  case (ListingQuery l off)
  have "filter (\<lambda>r. live now (l_ah r)) (filter (\<lambda>x. live t (l_ah x)) (listing_from db)) =
      filter (\<lambda>r. live now (l_ah r)) (listing_from db)"
    by (rule filter_live_twice [OF assms])
  with ListingQuery show ?thesis
    by (simp add: run_query_def listing_from_filter)
next
  case StatsQuery
  have "filter (\<lambda>r. live now (fst r)) (filter (\<lambda>x. live t (fst x)) (stats_from db)) =
      filter (\<lambda>r. live now (fst r)) (stats_from db)"
    by (rule filter_live_twice [OF assms])
  with StatsQuery show ?thesis
    by (simp add: run_query_def stats_from_filter)
next
  case BidQuery
  have "filter (\<lambda>ah. 0 < ah_lastbid ah \<and> live now ah) (filter (\<lambda>x. live t x) (auctionhouse db)) =
      filter (\<lambda>ah. 0 < ah_lastbid ah \<and> live now ah) (auctionhouse db)"
    by (rule filter_live_twice [OF assms]) simp
  with BidQuery show ?thesis
    by (simp add: run_query_def)
next
  case (SearchQuery p1 p2)
  have "filter (search_where now p1 p2) (filter (\<lambda>x. live t (l_ah x)) (listing_from db)) =
      filter (search_where now p1 p2) (listing_from db)"
    by (rule filter_live_twice [OF assms]) (simp add: search_where_def)
  with SearchQuery show ?thesis
    by (simp add: run_query_def listing_from_filter)
next
  case SellersQuery
  have "filter (sellers_where now) (filter (\<lambda>x. live t (s_ah x)) (sellers_from db)) =
      filter (sellers_where now) (sellers_from db)"
    by (rule filter_live_twice [OF assms]) (simp add: sellers_where_def)
  with SellersQuery show ?thesis
    by (simp add: run_query_def sellers_from_filter)
qed

lemma Query_without_expired:
  "t \<le> UNIX_TIMESTAMP e k \<Longrightarrow> Query (without_expired t e) k q = Query e k q"
  by (simp add: Query_def without_expired_def run_query_without_expired split: option.splits)

lemma QueryRow_without_expired:
  "t \<le> UNIX_TIMESTAMP e k \<Longrightarrow> QueryRow (without_expired t e) k q = QueryRow e k q"
  by (simp add: QueryRow_def Query_without_expired split: sum.splits list.splits)

lemma Now_Unix_without_expired: "Now_Unix (without_expired t e) = Now_Unix e"
  by (simp add: without_expired_def)

lemma handleGetAuctions_without_expired:
  "t \<le> UNIX_TIMESTAMP e 0 \<Longrightarrow> handleGetAuctions (without_expired t e) r = handleGetAuctions e r"
  by (simp add: handleGetAuctions_def Query_without_expired Now_Unix_without_expired Let_def
      split: sum.splits)

lemma handleSearch_without_expired:
  "t \<le> UNIX_TIMESTAMP e 0 \<Longrightarrow> handleSearch (without_expired t e) r = handleSearch e r"
  by (simp add: handleSearch_def Query_without_expired Now_Unix_without_expired Let_def
      split: sum.splits)

lemma handleGetStats_without_expired:
  "t \<le> UNIX_TIMESTAMP e 0 \<Longrightarrow> t \<le> UNIX_TIMESTAMP e 1 \<Longrightarrow>
     handleGetStats (without_expired t e) r = handleGetStats e r"
  by (simp only: handleGetStats_def QueryRow_without_expired)

lemma handleGetSellers_without_expired:
  "t \<le> UNIX_TIMESTAMP e 0 \<Longrightarrow> handleGetSellers (without_expired t e) r = handleGetSellers e r"
  by (simp add: handleGetSellers_def Query_without_expired split: sum.splits)

lemma scan_auctions_mem:
  "a \<in> set (scan_auctions clock k rows) \<Longrightarrow>
     \<exists>row \<in> set rows. \<exists>a0 j. scan_auction row = Some a0 \<and> a = set_time_left (clock j) a0"
  by (induction rows arbitrary: k) (auto split: option.splits)

lemma listing_from_ah: "x \<in> set (listing_from db) \<Longrightarrow> l_ah x \<in> set (auctionhouse db)"
  by (auto simp: listing_from_def)

lemma set_time_left_fields:
  "ID (set_time_left now a) = ID a" "Time (set_time_left now a) = Time a"
  by (simp_all add: set_time_left_def Let_def)

lemma scanned_listing_live:
  assumes "a \<in> set (scan_auctions clock k (map listing_select xs))"
    and "\<And>x. x \<in> set xs \<Longrightarrow> x \<in> set (listing_from db) \<and> live now (l_ah x)"
  shows "\<exists>ah \<in> set (auctionhouse db). live now ah \<and> ID a = ah_id ah \<and> Time a = ah_time ah"
proof -
  from scan_auctions_mem [OF assms(1)]
  obtain x a0 j where x: "x \<in> set xs" and s: "scan_auction (listing_select x) = Some a0"
    and a: "a = set_time_left (clock j) a0"
    by auto
  from s have a0: "a0 = resolved x"
    by (simp add: scan_listing split: if_splits)
  have "l_ah x \<in> set (auctionhouse db)" "live now (l_ah x)"
    using assms(2) [OF x] by (simp_all add: listing_from_ah)
  moreover have "ID a = ah_id (l_ah x)" "Time a = ah_time (l_ah x)"
    by (simp_all add: a a0 set_time_left_fields resolved_def)
  ultimately show ?thesis by blast
qed

lemma handleGetAuctions_live:
  assumes "a \<in> set (response_auctions (fst (handleGetAuctions e r)))"
  shows "\<exists>ah \<in> set (auctionhouse (tables e)).
     live (UNIX_TIMESTAMP e 0) ah \<and> ID a = ah_id ah \<and> Time a = ah_time ah"
proof -
  let ?now = "UNIX_TIMESTAMP e 0"
  let ?live = "filter (\<lambda>r. live ?now (l_ah r)) (listing_from (tables e))"
  from assms obtain off where
    a: "a \<in> set (scan_auctions (Now_Unix e) 0
          (take 50 (drop off (map listing_select (order_by_time ?live)))))"
    by (auto simp: handleGetAuctions_def Let_def response_auctions_def Query_def run_query_def
        split: sum.splits option.splits if_splits)
  have m: "take 50 (drop off (map listing_select (order_by_time ?live))) =
      map listing_select (take 50 (drop off (order_by_time ?live)))"
    by (simp add: take_map drop_map)
  have "x \<in> set (listing_from (tables e)) \<and> live ?now (l_ah x)"
    if "x \<in> set (take 50 (drop off (order_by_time ?live)))" for x
    using in_set_dropD [OF in_set_takeD [OF that]] by (simp add: order_by_time_def)
  then show ?thesis
    using scanned_listing_live [OF a [unfolded m]] by blast
qed

lemma handleSearch_live:
  assumes "a \<in> set (response_auctions (fst (handleSearch e r)))"
  shows "\<exists>ah \<in> set (auctionhouse (tables e)).
     live (UNIX_TIMESTAMP e 0) ah \<and> ID a = ah_id ah \<and> Time a = ah_time ah"
proof -
  let ?now = "UNIX_TIMESTAMP e 0"
  from assms obtain p where
    a: "a \<in> set (scan_auctions (Now_Unix e) 0
          (take 100 (map listing_select
             (order_by_time (filter (search_where ?now p p) (listing_from (tables e)))))))"
    by (auto simp: handleSearch_def Let_def response_auctions_def Query_def run_query_def
        split: sum.splits option.splits if_splits)
  let ?m = "order_by_time (filter (search_where ?now p p) (listing_from (tables e)))"
  have m: "take 100 (map listing_select ?m) = map listing_select (take 100 ?m)"
    by (simp add: take_map)
  have "x \<in> set (listing_from (tables e)) \<and> live ?now (l_ah x)"
    if "x \<in> set (take 100 ?m)" for x
    using in_set_takeD [OF that] by (simp add: order_by_time_def search_where_def)
  then show ?thesis
    using scanned_listing_live [OF a [unfolded m]] by blast
qed

text \<open>
  Claim C1. No expired listing shows in a response. Every auction in the answer to the
  listing request and to the search request is a row of the auction table whose expiry
  is later than the server's clock when the query ran. Deleting from the table the rows
  that had expired by a time \<open>t\<close> not later than that clock changes neither these
  answers nor the statistics (for which \<open>t\<close> is not later than the clock of either of
  its two queries).
\<close>

theorem expired_never_shown:
  "(\<forall>a \<in> set (response_auctions (fst (handleGetAuctions e r))).
      \<exists>ah \<in> set (auctionhouse (tables e)).
        live (UNIX_TIMESTAMP e 0) ah \<and> ID a = ah_id ah \<and> Time a = ah_time ah) \<and>
   (\<forall>a \<in> set (response_auctions (fst (handleSearch e r))).
      \<exists>ah \<in> set (auctionhouse (tables e)).
        live (UNIX_TIMESTAMP e 0) ah \<and> ID a = ah_id ah \<and> Time a = ah_time ah) \<and>
   (t \<le> UNIX_TIMESTAMP e 0 \<longrightarrow>
      handleGetAuctions (without_expired t e) r = handleGetAuctions e r \<and>
      handleSearch (without_expired t e) r = handleSearch e r) \<and>
   (t \<le> UNIX_TIMESTAMP e 0 \<and> t \<le> UNIX_TIMESTAMP e 1 \<longrightarrow>
      handleGetStats (without_expired t e) r = handleGetStats e r)"
  using handleGetAuctions_live [of _ e r] handleSearch_live [of _ e r]
    handleGetAuctions_without_expired [of t e r] handleSearch_without_expired [of t e r]
    handleGetStats_without_expired [of t e r]
  by blast

theorem expired_never_shown_witness:
  "map ah_id (auctionhouse (tables (sample_env 1000))) = [1, 2, 3, 4] \<and>
   map ah_id (auctionhouse (tables (without_expired 1000 (sample_env 1000)))) = [1, 3, 4] \<and>
   map ID (response_auctions (fst (handleGetAuctions (sample_env 1000) no_params))) = [3, 1] \<and>
   list_all (\<lambda>a. 1000 < Time a)
     (response_auctions (fst (handleGetAuctions (sample_env 1000) no_params))) \<and>
   map ID (response_auctions (fst (handleSearch (sample_env 1000) (search_request ''l''))))
     = [1] \<and>
   handleGetAuctions (without_expired 1000 (sample_env 1000)) no_params =
     handleGetAuctions (sample_env 1000) no_params \<and>
   handleSearch (without_expired 1000 (sample_env 1000)) (search_request ''l'') =
     handleSearch (sample_env 1000) (search_request ''l'') \<and>
   handleGetStats (without_expired 1000 (sample_env 1000)) no_params =
     handleGetStats (sample_env 1000) no_params"
proof -
  have t: "(1000::int) \<le> UNIX_TIMESTAMP (sample_env 1000) 0"
    "(1000::int) \<le> UNIX_TIMESTAMP (sample_env 1000) 1"
    by (simp_all add: sample_env_def)
  have a: "map ah_id (auctionhouse (tables (sample_env 1000))) = [1, 2, 3, 4]"
    "map ah_id (auctionhouse (tables (without_expired 1000 (sample_env 1000)))) = [1, 3, 4]"
    by code_simp+
  have b: "map ID (response_auctions (fst (handleGetAuctions (sample_env 1000) no_params)))
      = [3, 1]"
    by code_simp
  have c: "map ID (response_auctions
      (fst (handleSearch (sample_env 1000) (search_request ''l'')))) = [1]"
    by code_simp
  note th = expired_never_shown [of "sample_env 1000" no_params 1000]
  note th' = expired_never_shown [of "sample_env 1000" "search_request ''l''" 1000]
  from th have "\<forall>a \<in> set (response_auctions (fst (handleGetAuctions (sample_env 1000) no_params))).
      UNIX_TIMESTAMP (sample_env 1000) 0 < Time a"
    by (auto simp: live_def)
  then have d: "list_all (\<lambda>a. 1000 < Time a)
     (response_auctions (fst (handleGetAuctions (sample_env 1000) no_params)))"
    by (simp add: list_all_iff sample_env_def)
  show ?thesis
    using th th' t a b c d by simp
qed

section \<open>Missing references\<close>

lemma listing_row_shown:
  "row_decodes x \<Longrightarrow> scan_auction (listing_select x) = Some (resolved x)"
  by (simp add: scan_listing)

lemma listing_row_dropped:
  "l_ii x = None \<Longrightarrow> scan_auction (listing_select x) = None"
  by (rule scan_listing_no_instance)

text \<open>
  Claim C7 says that a listing row whose owner, item instance or item template is missing
  is still returned, with placeholders. The code does so for a missing owner and a
  missing template (\<open>listing_row_shown\<close>, with \<open>resolved\<close>), but not for a missing item
  instance: \<open>ii.itemEntry\<close> and \<open>ii.count\<close> are selected without \<open>COALESCE\<close>, their NULL
  does not decode into an \<open>int\<close>, and the row loop skips the row
  (\<open>listing_row_dropped\<close>). In the sample store at time 1000 the auctions 1, 3 and 4 are
  live and no item instance has the guid 104 of auction 4: the response shows auction 3
  with both placeholders, and auction 4 is absent.
\<close>

theorem listing_omits_missing_item_instance:
  "map ah_id (filter (live 1000) (auctionhouse (tables (sample_env 1000)))) = [1, 3, 4] \<and>
   filter (\<lambda>i. ii_guid i = 104) (item_instance (tables (sample_env 1000))) = [] \<and>
   map (\<lambda>a. (ID a, OwnerName a, ItemName a, Quality a, ItemLevel a))
     (response_auctions (fst (handleGetAuctions (sample_env 1000) no_params))) =
     [(3, ''Unknown'', ''Unknown Item'', 0, 0), (1, ''Thrall'', ''Linen Cloth'', 1, 5)]"
  by code_simp

section \<open>Search\<close>

lemma like_match_percent_Cons:
  "like_match (CHR ''%'' # ps) (c # s) = (like_match ps (c # s) \<or> like_match (CHR ''%'' # ps) s)"
  by (simp add: like_match.simps(2))

lemma like_match_percent_Nil:
  "like_match (CHR ''%'' # ps) [] = like_match ps []"
  by (simp add: like_match.simps(2))

lemma like_match_percent:
  "like_match (CHR ''%'' # ps) s = (\<exists>s1 s2. s = s1 @ s2 \<and> like_match ps s2)"
proof (induction s)
  case Nil
  then show ?case by (simp add: like_match_percent_Nil)
next
  case (Cons c s)
  show ?case
  proof
    assume "like_match (CHR ''%'' # ps) (c # s)"
    then consider "like_match ps (c # s)" | "like_match (CHR ''%'' # ps) s"
      by (auto simp: like_match_percent_Cons)
    then show "\<exists>s1 s2. c # s = s1 @ s2 \<and> like_match ps s2"
    proof cases
      case 1
      then have "c # s = [] @ (c # s) \<and> like_match ps (c # s)" by simp
      then show ?thesis by blast
    next
      case 2
      then obtain s1 s2 where "s = s1 @ s2" "like_match ps s2" using Cons by blast
      then have "c # s = (c # s1) @ s2 \<and> like_match ps s2" by simp
      then show ?thesis by blast
    qed
  next
    assume "\<exists>s1 s2. c # s = s1 @ s2 \<and> like_match ps s2"
    then obtain s1 s2 where e: "c # s = s1 @ s2" and m: "like_match ps s2" by blast
    show "like_match (CHR ''%'' # ps) (c # s)"
    proof (cases s1)
      case Nil
      then have "s2 = c # s" using e by simp
      then have "like_match ps (c # s)" using m by simp
      then show ?thesis by (simp add: like_match_percent_Cons)
    next
      case (Cons d s1')
      then have "s = s1' @ s2" using e by simp
      then have "like_match (CHR ''%'' # ps) s" using m Cons.IH by blast
      then show ?thesis by (simp add: like_match_percent_Cons)
    qed
  qed
qed

lemma like_match_literal:
  assumes "p \<noteq> CHR ''%''" "p \<noteq> CHR ''_''" "p \<noteq> CHR 0x5C"
  shows "like_match (p # ps) s =
     (case s of [] \<Rightarrow> False | c # t \<Rightarrow> fold_case c = fold_case p \<and> like_match ps t)"
  using assms by (simp add: like_match.simps(2))

lemma like_match_wildcard_free:
  assumes "wildcard_free t"
  shows "like_match (t @ ps) s =
     (\<exists>s1 s2. s = s1 @ s2 \<and> map fold_case s1 = map fold_case t \<and> like_match ps s2)"
  using assms
proof (induction t arbitrary: s)
  case Nil
  then show ?case by simp
next
  case (Cons p t)
  then have p: "p \<noteq> CHR ''%''" "p \<noteq> CHR ''_''" "p \<noteq> CHR 0x5C" and t: "wildcard_free t"
    by (simp_all add: wildcard_free_def)
  show ?case
  proof (cases s)
    case Nil
    then show ?thesis using p by (simp add: like_match_literal)
  next
    case (Cons c s')
    have "like_match ((p # t) @ ps) s = (fold_case c = fold_case p \<and> like_match (t @ ps) s')"
      using p Cons by (simp add: like_match_literal)
    also have "\<dots> = (fold_case c = fold_case p \<and>
        (\<exists>s1 s2. s' = s1 @ s2 \<and> map fold_case s1 = map fold_case t \<and> like_match ps s2))"
      using Cons.IH [OF t] by simp
    also have "\<dots> = (\<exists>s1 s2. s = s1 @ s2 \<and> map fold_case s1 = map fold_case (p # t) \<and>
        like_match ps s2)"
    proof
      assume "fold_case c = fold_case p \<and>
        (\<exists>s1 s2. s' = s1 @ s2 \<and> map fold_case s1 = map fold_case t \<and> like_match ps s2)"
      then obtain s1 s2 where "fold_case c = fold_case p" "s' = s1 @ s2"
        "map fold_case s1 = map fold_case t" "like_match ps s2" by blast
      then have "s = (c # s1) @ s2 \<and> map fold_case (c # s1) = map fold_case (p # t) \<and>
          like_match ps s2"
        using Cons by simp
      then show "\<exists>s1 s2. s = s1 @ s2 \<and> map fold_case s1 = map fold_case (p # t) \<and>
          like_match ps s2"
        by blast
    next
      assume "\<exists>s1 s2. s = s1 @ s2 \<and> map fold_case s1 = map fold_case (p # t) \<and>
          like_match ps s2"
      then obtain s1 s2 where e: "s = s1 @ s2" and f: "map fold_case s1 = map fold_case (p # t)"
        and m: "like_match ps s2" by blast
      from f obtain d s1' where s1: "s1 = d # s1'" by (cases s1) auto
      then have "c = d" "s' = s1' @ s2" using e Cons by simp_all
      then show "fold_case c = fold_case p \<and>
        (\<exists>s1 s2. s' = s1 @ s2 \<and> map fold_case s1 = map fold_case t \<and> like_match ps s2)"
        using f m s1 by auto
    qed
    finally show ?thesis .
  qed
qed

lemma like_match_contains:
  assumes "wildcard_free t"
  shows "like_match (CHR ''%'' # t @ ''%'') s = contains_ci s t"
proof -
  have any: "like_match ''%'' s2" for s2
    by (simp add: like_match_percent)
  have "like_match (CHR ''%'' # t @ ''%'') s =
      (\<exists>s1 s2. s = s1 @ s2 \<and> like_match (t @ ''%'') s2)"
    by (simp add: like_match_percent)
  also have "\<dots> = (\<exists>s1 s2 s3. s = s1 @ s2 @ s3 \<and> map fold_case s2 = map fold_case t)"
    by (auto simp: like_match_wildcard_free [OF assms] any)
  also have "\<dots> = contains_ci s t"
  proof
    assume "\<exists>s1 s2 s3. s = s1 @ s2 @ s3 \<and> map fold_case s2 = map fold_case t"
    then obtain s1 s2 s3 where "s = s1 @ s2 @ s3" "map fold_case s2 = map fold_case t" by blast
    then have "map fold_case s = map fold_case s1 @ map fold_case t @ map fold_case s3"
      by simp
    then show "contains_ci s t" unfolding contains_ci_def sublist_def by blast
  next
    assume "contains_ci s t"
    then obtain ps ss where e: "map fold_case s = ps @ map fold_case t @ ss"
      unfolding contains_ci_def sublist_def by blast
    then have "\<exists>s1 r. s = s1 @ r \<and> ps = map fold_case s1 \<and>
        map fold_case t @ ss = map fold_case r"
      by (simp only: map_eq_append_conv)
    then obtain s1 r where r: "s = s1 @ r" and m: "map fold_case t @ ss = map fold_case r"
      by blast
    from m have "\<exists>s2 s3. r = s2 @ s3 \<and> map fold_case t = map fold_case s2 \<and>
        ss = map fold_case s3"
      by (simp only: append_eq_map_conv)
    then obtain s2 s3 where "r = s2 @ s3" "map fold_case s2 = map fold_case t"
      by auto
    then show "\<exists>s1 s2 s3. s = s1 @ s2 @ s3 \<and> map fold_case s2 = map fold_case t"
      using r by blast
  qed
  finally show ?thesis .
qed

lemma search_where_matches:
  assumes "wildcard_free term"
  shows "search_where now (CHR ''%'' # term @ ''%'') (CHR ''%'' # term @ ''%'') =
     (\<lambda>x. live now (l_ah x) \<and> matches_term term x)"
proof
  fix x
  show "search_where now (CHR ''%'' # term @ ''%'') (CHR ''%'' # term @ ''%'') x =
     (live now (l_ah x) \<and> matches_term term x)"
    by (cases "l_it x"; cases "l_c x")
      (auto simp: search_where_def matches_term_def LIKE_def sql_or_def is_true_def
        like_match_contains [OF assms])
qed

lemma resolved_clear_label: "(set_time_left now (resolved x))\<lparr>TimeLeft := []\<rparr> = resolved x"
  by (simp add: set_time_left_def Let_def resolved_def)

lemma scan_auctions_resolved:
  "map (\<lambda>a. a\<lparr>TimeLeft := []\<rparr>) (scan_auctions clock k (map listing_select xs)) =
     map resolved (filter row_decodes xs)"
  by (induction xs arbitrary: k) (simp_all add: scan_listing resolved_clear_label)

text \<open>
  Claim C8, as amended. For a non-empty search term that holds none of \<open>%\<close>, \<open>_\<close> and the
  backslash, and when the query succeeds and every matching row decodes, the response
  to \<open>/api/search\<close> has status 200 and lists, in order of expiry and cut after 100, exactly
  the joined live rows whose item-template name or character name, as stored, contains
  the term without regard to case; each is shown with its resolved columns. The
  placeholders shown for a missing owner or template are not searched.
\<close>

theorem handleSearch_substring:
  assumes "Get (URL_Query r) ''q'' = term" and "term \<noteq> []" and "wildcard_free term"
    and "fault e 0 = None"
    and "\<forall>x \<in> set (listing_from (tables e)).
      live (UNIX_TIMESTAMP e 0) (l_ah x) \<and> matches_term term x \<longrightarrow> row_decodes x"
  shows "status (fst (handleSearch e r)) = 200 \<and>
     map (\<lambda>a. a\<lparr>TimeLeft := []\<rparr>) (response_auctions (fst (handleSearch e r))) =
       map resolved (take 100 (order_by_time
         (filter (\<lambda>x. live (UNIX_TIMESTAMP e 0) (l_ah x) \<and> matches_term term x)
            (listing_from (tables e)))))"
proof -
  let ?now = "UNIX_TIMESTAMP e 0"
  let ?p = "CHR ''%'' # term @ ''%''"
  let ?m = "filter (\<lambda>x. live ?now (l_ah x) \<and> matches_term term x) (listing_from (tables e))"
  note w = search_where_matches [OF assms(3), of ?now]
  have q: "Query e 0 (SearchQuery ?p ?p) = Inr (map listing_select (take 100 (order_by_time ?m)))"
    using assms(4) by (simp add: Query_def run_query_def w take_map)
  have h: "handleSearch e r =
      (Response 200 (SearchResult
         (scan_auctions (Now_Unix e) 0 (map listing_select (take 100 (order_by_time ?m)))) term),
       [SearchQuery ?p ?p])"
    using assms(1,2) q by (simp add: handleSearch_def Let_def)
  have "x \<in> set (take 100 (order_by_time ?m)) \<Longrightarrow> row_decodes x" for x
    using assms(5) in_set_takeD [of x 100 "order_by_time ?m"]
    by (simp add: order_by_time_def)
  then have d: "filter row_decodes (take 100 (order_by_time ?m)) = take 100 (order_by_time ?m)"
    by (simp add: filter_id_conv)
  show ?thesis
    by (simp add: h response_auctions_def scan_auctions_resolved d)
qed

theorem handleSearch_substring_witness:
  "Get (URL_Query (search_request ''cLoTh'')) ''q'' = ''cLoTh'' \<and> ''cLoTh'' \<noteq> [] \<and>
   wildcard_free ''cLoTh'' \<and> fault (sample_env 1000) 0 = None \<and>
   list_all row_decodes
     (filter (\<lambda>x. live (UNIX_TIMESTAMP (sample_env 1000) 0) (l_ah x) \<and> matches_term ''cLoTh'' x)
        (listing_from (tables (sample_env 1000)))) \<and>
   status (fst (handleSearch (sample_env 1000) (search_request ''cLoTh''))) = 200 \<and>
   map (\<lambda>a. (ID a, ItemName a, OwnerName a))
     (response_auctions (fst (handleSearch (sample_env 1000) (search_request ''cLoTh'')))) =
     [(1, ''Linen Cloth'', ''Thrall'')]"
proof -
  have a: "Get (URL_Query (search_request ''cLoTh'')) ''q'' = ''cLoTh''" by code_simp
  have b: "wildcard_free ''cLoTh''" by code_simp
  have c: "fault (sample_env 1000) 0 = None" by (simp add: sample_env_def)
  have d: "list_all row_decodes
     (filter (\<lambda>x. live (UNIX_TIMESTAMP (sample_env 1000) 0) (l_ah x) \<and> matches_term ''cLoTh'' x)
        (listing_from (tables (sample_env 1000))))"
    by code_simp
  then have d': "\<forall>x \<in> set (listing_from (tables (sample_env 1000))).
      live (UNIX_TIMESTAMP (sample_env 1000) 0) (l_ah x) \<and> matches_term ''cLoTh'' x \<longrightarrow> row_decodes x"
    by (simp add: list_all_iff)
  have n: "''cLoTh'' \<noteq> []" by simp
  have e: "map (\<lambda>a. (ID a, ItemName a, OwnerName a))
     (response_auctions (fst (handleSearch (sample_env 1000) (search_request ''cLoTh'')))) =
     [(1, ''Linen Cloth'', ''Thrall'')]"
    by code_simp
  show ?thesis
    using handleSearch_substring [OF a n b c d'] a b c d e by simp
qed

text \<open>
  The claim as first stated speaks of the resolved names and of every term. Auction 3 of
  the sample store is live and is listed with the owner name "Unknown", which contains
  "known"; the search for "known" returns nothing. The search for "_" returns auction 1,
  though neither of its names contains an underscore: \<open>LIKE\<close> reads the term's
  underscore as "any one character".
\<close>

theorem handleSearch_placeholder_counterexample:
  "map ID (response_auctions (fst (handleGetAuctions (sample_env 1000) no_params))) =
     [3, 1] \<and>
   map OwnerName (response_auctions (fst (handleGetAuctions (sample_env 1000) no_params))) =
     [''Unknown'', ''Thrall''] \<and>
   contains_ci ''Unknown'' ''known'' \<and>
   Get (URL_Query (search_request ''known'')) ''q'' = ''known'' \<and>
   fst (handleSearch (sample_env 1000) (search_request ''known'')) =
     Response 200 (SearchResult [] ''known'') \<and>
   map ID (response_auctions (fst (handleSearch (sample_env 1000) (search_request ''_''))))
     = [1] \<and>
   map ItemName (response_auctions (fst (handleSearch (sample_env 1000) (search_request ''_''))))
     = [''Linen Cloth''] \<and>
   map OwnerName (response_auctions (fst (handleSearch (sample_env 1000) (search_request ''_''))))
     = [''Thrall''] \<and>
   \<not> contains_ci ''Linen Cloth'' ''_'' \<and> \<not> contains_ci ''Thrall'' ''_''"
  by code_simp

section \<open>Sellers\<close>

lemma group_by_members:
  "(x, ms) \<in> set (group_by key xs) \<Longrightarrow> x \<in> set xs \<and> ms = filter (\<lambda>y. key y = key x) xs"
proof (induction key xs arbitrary: x ms rule: group_by.induct)
  case (1 key)
  then show ?case by simp
next
  case (2 key z zs)
  from "2.prems" consider "x = z" "ms = z # filter (\<lambda>y. key y = key z) zs"
    | "(x, ms) \<in> set (group_by key (filter (\<lambda>y. key y \<noteq> key z) zs))"
    by auto
  then show ?case
  proof cases
    case 1
    then show ?thesis by simp
  next
    case 2
    from "2.IH" [OF 2] have x: "x \<in> set zs" "key x \<noteq> key z"
      and ms: "ms = filter (\<lambda>y. key y = key x) (filter (\<lambda>y. key y \<noteq> key z) zs)"
      by simp_all
    have "filter (\<lambda>y. key y = key x) (filter (\<lambda>y. key y \<noteq> key z) zs) =
        filter (\<lambda>y. key y = key x) zs"
      using x(2) by (auto simp: filter_filter intro!: filter_cong)
    then show ?thesis using x ms by auto
  qed
qed

lemma group_by_covers:
  "x \<in> set xs \<Longrightarrow> \<exists>g \<in> set (group_by key xs). key (fst g) = key x"
proof (induction key xs arbitrary: x rule: group_by.induct)
  case (1 key)
  then show ?case by simp
next
  case (2 key z zs)
  show ?case
  proof (cases "key x = key z")
    case True
    then show ?thesis by simp
  next
    case False
    then have "x \<in> set (filter (\<lambda>y. key y \<noteq> key z) zs)"
      using "2.prems" by auto
    from "2.IH" [OF this] show ?thesis by auto
  qed
qed

lemma left_join_Some: "Some c \<in> set (left_join on t) \<longleftrightarrow> c \<in> set t \<and> on c"
proof (cases "filter on t")
  case Nil
  then show ?thesis by (auto simp: left_join_def filter_empty_conv)
next
  case (Cons m ms)
  have "set (m # ms) = {c \<in> set t. on c}" using Cons [symmetric] by simp
  then show ?thesis using Cons by (auto simp: left_join_def)
qed

lemma left_join_nonempty: "left_join on t \<noteq> []"
  by (simp add: left_join_def split: list.splits)

lemma sellers_from_mem:
  assumes "x \<in> set (sellers_from db)"
  shows "s_ah x \<in> set (auctionhouse db)"
    and "s_c x = Some c \<Longrightarrow> c \<in> set (characters db) \<and> c_guid c = ah_itemowner (s_ah x)"
  using assms by (auto simp: sellers_from_def left_join_Some)

lemma sellers_from_joined:
  assumes "ah \<in> set (auctionhouse db)" and "c \<in> set (characters db)"
    and "c_guid c = ah_itemowner ah"
  shows "\<exists>ii. \<lparr>s_ah = ah, s_c = Some c, s_ii = ii\<rparr> \<in> set (sellers_from db)"
proof -
  obtain ii where "ii \<in> set (left_join (\<lambda>i. ah_itemguid ah = ii_guid i) (item_instance db))"
    using left_join_nonempty [of "\<lambda>i. ah_itemguid ah = ii_guid i" "item_instance db"]
    by (cases "left_join (\<lambda>i. ah_itemguid ah = ii_guid i) (item_instance db)") auto
  moreover have "Some c \<in> set (left_join (\<lambda>ch. ah_itemowner ah = c_guid ch) (characters db))"
    using assms(2,3) by (simp add: left_join_Some)
  ultimately have "\<lparr>s_ah = ah, s_c = Some c, s_ii = ii\<rparr> \<in> set (sellers_from db)"
    using assms(1) by (auto simp: sellers_from_def)
  then show ?thesis ..
qed


lemma scan_seller_select:
  "scan_seller (sellers_select g) =
     (case seller_name g of
        None \<Rightarrow> None
      | Some n \<Rightarrow>
          if in_int64 (total_auctions g) \<and> in_int64 (total_value g) \<and> in_int64 (unique_items g)
          then Some \<lparr>Name = n, TotalAuctions = total_auctions g,
                 Seller_TotalValue = total_value g, Seller_UniqueItems = unique_items g\<rparr>
          else None)"
  by (simp add: scan_seller_def sellers_select_def sql_str_def scan_string_def scan_int_SInt
      split: option.splits)

lemma scan_sellers_Nil: "scan_sellers [] = []"
  by (simp add: scan_sellers_def)

lemma scan_sellers_Cons:
  "scan_sellers (row # rows) =
     (case scan_seller row of None \<Rightarrow> scan_sellers rows | Some s \<Rightarrow> s # scan_sellers rows)"
  by (simp add: scan_sellers_def split: option.splits)

lemma scan_sellers_select:
  "scan_sellers (map sellers_select gs) =
     map (\<lambda>g. the (scan_seller (sellers_select g)))
       (filter (\<lambda>g. scan_seller (sellers_select g) \<noteq> None) gs)"
  by (induction gs) (auto simp: scan_sellers_Nil scan_sellers_Cons split: option.splits)

lemma sellers_order_sorted:
  "sorted (map (\<lambda>g. (- total_auctions g, - total_value g)) (sellers_order gs))"
  by (simp add: sellers_order_def)

lemma scanned_sellers_sorted:
  "sorted_wrt seller_before (scan_sellers (map sellers_select (sellers_order gs)))"
proof -
  let ?key = "\<lambda>g. (- total_auctions g, - total_value g)"
  let ?ok = "\<lambda>g. scan_seller (sellers_select g) \<noteq> None"
  have "sorted (map ?key (filter ?ok (sellers_order gs)))"
    by (rule sorted_filter [OF sellers_order_sorted])
  then have s: "sorted_wrt (\<lambda>x y. ?key x \<le> ?key y) (filter ?ok (sellers_order gs))"
    by (simp only: sorted_map)
  have "sorted_wrt (\<lambda>x y. seller_before (the (scan_seller (sellers_select x)))
          (the (scan_seller (sellers_select y)))) (filter ?ok (sellers_order gs))"
  proof (rule sorted_wrt_mono_rel [OF _ s])
    fix x y
    assume "x \<in> set (filter ?ok (sellers_order gs))" "y \<in> set (filter ?ok (sellers_order gs))"
      and k: "?key x \<le> ?key y"
    then have "?ok x" "?ok y" by simp_all
    then show "seller_before (the (scan_seller (sellers_select x)))
        (the (scan_seller (sellers_select y)))"
      using k
      by (auto simp: scan_seller_select seller_before_def less_eq_prod_def
          split: option.splits if_splits)
  qed
  then show ?thesis
    by (simp add: scan_sellers_select sorted_wrt_map)
qed

lemma response_sellers_eq:
  "response_sellers (fst (handleGetSellers e r)) =
     (case fault e 0 of
        Some msg \<Rightarrow> []
      | None \<Rightarrow>
          scan_sellers (map sellers_select (sellers_order (map sellers_aggregate
            (group_by sellers_key
               (filter (sellers_where (UNIX_TIMESTAMP e 0)) (sellers_from (tables e))))))))"
  by (simp add: handleGetSellers_def response_sellers_def Query_def run_query_def
      split: option.splits)

lemma handleGetSellers_sorted:
  "sorted_wrt seller_before (response_sellers (fst (handleGetSellers e r)))"
  by (simp add: response_sellers_eq scanned_sellers_sorted split: option.splits)

lemma group_is_listings_of:
  assumes "x \<in> set (sellers_from db)" and "sellers_where now x" and "s_c x = Some c"
  shows "filter (\<lambda>y. sellers_key y = sellers_key x)
           (filter (sellers_where now) (sellers_from db)) = listings_of db now c"
proof -
  have g: "c_guid c = ah_itemowner (s_ah x)"
    using sellers_from_mem(2) [OF assms(1,3)] by simp
  show ?thesis
    unfolding listings_of_def filter_filter
    by (rule filter_cong)
      (auto simp: sellers_key_def sellers_where_def assms(3) g split: option.splits)
qed

lemma scanned_seller_group:
  assumes "s \<in> set (scan_sellers (map sellers_select (sellers_order (map sellers_aggregate
      (group_by sellers_key (filter (sellers_where now) (sellers_from db)))))))"
  shows "\<exists>ah \<in> set (auctionhouse db). \<exists>c \<in> set (characters db).
     live now ah \<and> c_guid c = ah_itemowner ah \<and> Name s = c_name c \<and>
     TotalAuctions s = int (length (listings_of db now c)) \<and>
     Seller_TotalValue s = sum_list (map (\<lambda>x. ah_buyoutprice (s_ah x)) (listings_of db now c))"
proof -
  let ?xs = "filter (sellers_where now) (sellers_from db)"
  from assms obtain x ms where xm: "(x, ms) \<in> set (group_by sellers_key ?xs)"
    and s: "scan_seller (sellers_select (sellers_aggregate (x, ms))) = Some s"
    by (auto simp: scan_sellers_select sellers_order_def)
  from group_by_members [OF xm] have x: "x \<in> set (sellers_from db)" "sellers_where now x"
    and ms: "ms = filter (\<lambda>y. sellers_key y = sellers_key x) ?xs"
    by simp_all
  from x(2) obtain c where c: "s_c x = Some c"
    by (auto simp: sellers_where_def)
  have m: "ms = listings_of db now c"
    using ms group_is_listings_of [OF x c] by simp
  have "s_ah x \<in> set (auctionhouse db)" "c \<in> set (characters db)"
    "c_guid c = ah_itemowner (s_ah x)" "live now (s_ah x)"
    using sellers_from_mem [OF x(1)] c x(2) by (simp_all add: sellers_where_def)
  moreover have "Name s = c_name c" "TotalAuctions s = int (length (listings_of db now c))"
    "Seller_TotalValue s = sum_list (map (\<lambda>x. ah_buyoutprice (s_ah x)) (listings_of db now c))"
    using s by (auto simp: scan_seller_select sellers_aggregate_def c m
        split: option.splits if_splits)
  ultimately show ?thesis by blast
qed

lemma handleGetSellers_groups:
  assumes "s \<in> set (response_sellers (fst (handleGetSellers e r)))"
  shows "\<exists>ah \<in> set (auctionhouse (tables e)). \<exists>c \<in> set (characters (tables e)).
     live (UNIX_TIMESTAMP e 0) ah \<and> c_guid c = ah_itemowner ah \<and> Name s = c_name c \<and>
     TotalAuctions s = int (length (listings_of (tables e) (UNIX_TIMESTAMP e 0) c)) \<and>
     Seller_TotalValue s =
       sum_list (map (\<lambda>x. ah_buyoutprice (s_ah x)) (listings_of (tables e) (UNIX_TIMESTAMP e 0) c))"
  using assms scanned_seller_group [of s "UNIX_TIMESTAMP e 0" "tables e"]
  by (simp add: response_sellers_eq split: option.splits)

lemma has_owner_joined:
  assumes "x \<in> set (sellers_from db)" and "sellers_where now x"
  shows "has_owner db (s_ah x)"
proof -
  from assms(2) obtain c where c: "s_c x = Some c" by (auto simp: sellers_where_def)
  from sellers_from_mem(2) [OF assms(1) c] show ?thesis
    by (auto simp: has_owner_def list_ex_iff)
qed

lemma run_sellers_without_ownerless:
  "run_query (db\<lparr>auctionhouse := filter (has_owner db) (auctionhouse db)\<rparr>) now SellersQuery =
     run_query db now SellersQuery"
proof -
  have "filter (sellers_where now) (filter (\<lambda>r. has_owner db (s_ah r)) (sellers_from db)) =
      filter (sellers_where now) (sellers_from db)"
    unfolding filter_filter
    by (rule filter_cong) (auto dest: has_owner_joined)
  then show ?thesis
    by (simp add: run_query_def sellers_from_filter)
qed

lemma handleGetSellers_without_ownerless:
  "handleGetSellers (without_ownerless e) r = handleGetSellers e r"
  by (simp add: handleGetSellers_def Query_def without_ownerless_def
      run_sellers_without_ownerless split: option.splits sum.splits)


lemma length_somes: "length [k. Some k \<leftarrow> vs] \<le> length vs"
  by (induction vs) (auto split: option.splits)

lemma count_distinct_bounds: "0 \<le> count_distinct vs \<and> count_distinct vs \<le> int (length vs)"
proof -
  have "length (remdups [k. Some k \<leftarrow> vs]) \<le> length [k. Some k \<leftarrow> vs]"
    by (rule length_remdups_leq)
  also have "\<dots> \<le> length vs" by (rule length_somes)
  finally show ?thesis by (simp add: count_distinct_def)
qed

lemma in_int64_between: "0 \<le> k \<Longrightarrow> k \<le> n \<Longrightarrow> in_int64 n \<Longrightarrow> in_int64 k"
  by (simp add: in_int64_def minInt64_def)

lemma listings_of_cong:
  "c_guid c' = c_guid c \<Longrightarrow> map fold_case (c_name c') = map fold_case (c_name c) \<Longrightarrow>
     listings_of db now c' = listings_of db now c"
  unfolding listings_of_def
  by (rule filter_cong) (auto split: option.splits)

lemma scanned_sellers_complete:
  assumes "ah \<in> set (auctionhouse db)" and "c \<in> set (characters db)" and "live now ah"
    and "c_guid c = ah_itemowner ah"
    and "in_int64 (int (length (listings_of db now c)))"
    and "in_int64 (sum_list (map (\<lambda>x. ah_buyoutprice (s_ah x)) (listings_of db now c)))"
  shows "\<exists>s \<in> set (scan_sellers (map sellers_select (sellers_order (map sellers_aggregate
      (group_by sellers_key (filter (sellers_where now) (sellers_from db))))))).
     map fold_case (Name s) = map fold_case (c_name c) \<and>
     TotalAuctions s = int (length (listings_of db now c)) \<and>
     Seller_TotalValue s = sum_list (map (\<lambda>x. ah_buyoutprice (s_ah x)) (listings_of db now c))"
proof -
  let ?xs = "filter (sellers_where now) (sellers_from db)"
  from sellers_from_joined [OF assms(1,2,4)] obtain ii
    where x0: "\<lparr>s_ah = ah, s_c = Some c, s_ii = ii\<rparr> \<in> set (sellers_from db)" ..
  let ?x0 = "\<lparr>s_ah = ah, s_c = Some c, s_ii = ii\<rparr>"
  have "?x0 \<in> set ?xs" using x0 assms(3) by (simp add: sellers_where_def)
  from group_by_covers [OF this, of sellers_key] obtain y ms
    where g: "(y, ms) \<in> set (group_by sellers_key ?xs)" and k: "sellers_key y = sellers_key ?x0"
    by auto
  from group_by_members [OF g] have y: "y \<in> set (sellers_from db)" "sellers_where now y"
    and ms: "ms = filter (\<lambda>z. sellers_key z = sellers_key y) ?xs"
    by simp_all
  from y(2) obtain c' where c': "s_c y = Some c'" by (auto simp: sellers_where_def)
  from k have k1: "ah_itemowner (s_ah y) = ah_itemowner ah"
    and n: "map fold_case (c_name c') = map fold_case (c_name c)"
    by (simp_all add: sellers_key_def c')
  have "c_guid c' = ah_itemowner (s_ah y)"
    using sellers_from_mem(2) [OF y(1) c'] by simp
  also have "\<dots> = ah_itemowner ah" by (rule k1)
  also have "\<dots> = c_guid c" by (rule assms(4) [symmetric])
  finally have l: "listings_of db now c' = listings_of db now c"
    using n by (rule listings_of_cong)
  have m: "ms = listings_of db now c"
    using ms group_is_listings_of [OF y c'] l by simp
  let ?g = "sellers_aggregate (y, ms)"
  let ?s = "\<lparr>Name = c_name c', TotalAuctions = total_auctions ?g,
      Seller_TotalValue = total_value ?g, Seller_UniqueItems = unique_items ?g\<rparr>"
  have ga: "seller_name ?g = Some (c_name c')"
    "total_auctions ?g = int (length (listings_of db now c))"
    "total_value ?g = sum_list (map (\<lambda>x. ah_buyoutprice (s_ah x)) (listings_of db now c))"
    "unique_items ?g = count_distinct (map (\<lambda>r. map_option ii_itemEntry (s_ii r)) ms)"
    by (simp_all add: sellers_aggregate_def c' m)
  have "0 \<le> unique_items ?g" "unique_items ?g \<le> int (length (listings_of db now c))"
    using count_distinct_bounds [of "map (\<lambda>r. map_option ii_itemEntry (s_ii r)) ms"]
    by (simp_all add: ga(4)) (simp add: m)
  then have u: "in_int64 (unique_items ?g)"
    using assms(5) by (rule in_int64_between)
  have sc: "scan_seller (sellers_select ?g) = Some ?s"
    using u assms(5,6) by (simp add: scan_seller_select ga(1,2,3))
  have "?g \<in> sellers_aggregate ` set (group_by sellers_key ?xs)"
    using g by (rule imageI [of _ _ sellers_aggregate])
  then have gs: "?g \<in> set (sellers_order (map sellers_aggregate (group_by sellers_key ?xs)))"
    by (simp add: sellers_order_def)
  have "?s = (\<lambda>g. the (scan_seller (sellers_select g))) ?g" using sc by simp
  moreover have "?g \<in> set (filter (\<lambda>g. scan_seller (sellers_select g) \<noteq> None)
      (sellers_order (map sellers_aggregate (group_by sellers_key ?xs))))"
    using gs sc by simp
  ultimately have "?s \<in> set (scan_sellers (map sellers_select (sellers_order
      (map sellers_aggregate (group_by sellers_key ?xs)))))"
    unfolding scan_sellers_select set_map by (rule image_eqI)
  moreover have "map fold_case (Name ?s) = map fold_case (c_name c)"
    "TotalAuctions ?s = int (length (listings_of db now c))"
    "Seller_TotalValue ?s = sum_list (map (\<lambda>x. ah_buyoutprice (s_ah x)) (listings_of db now c))"
    using n by (simp_all add: ga)
  ultimately show ?thesis by blast
qed

lemma group_by_distinct: "distinct (map (\<lambda>g. key (fst g)) (group_by key xs))"
proof (induction key xs rule: group_by.induct)
  case (1 key)
  show ?case by simp
next
  case (2 key z zs)
  let ?rest = "group_by key (filter (\<lambda>y. key y \<noteq> key z) zs)"
  have "key (fst g) \<noteq> key z" if "g \<in> set ?rest" for g
    using group_by_members [of "fst g" "snd g" key "filter (\<lambda>y. key y \<noteq> key z) zs"] that
    by simp
  note h = this
  have n: "key z \<notin> (\<lambda>g. key (fst g)) ` set ?rest"
  proof
    assume "key z \<in> (\<lambda>g. key (fst g)) ` set ?rest"
    then obtain g where "g \<in> set ?rest" and "key z = key (fst g)" by (rule imageE)
    then show False using h [of g] by simp
  qed
  have d: "distinct (map (\<lambda>g. key (fst g)) ?rest)" by (rule "2.IH")
  show ?case using n d by simp
qed

lemma insort_key_map:
  "insort_key f (g x) (map g xs) = map g (insort_key (\<lambda>y. f (g y)) x xs)"
  by (induction xs) simp_all

lemma sort_key_map: "sort_key f (map g xs) = map g (sort_key (\<lambda>y. f (g y)) xs)"
  by (induction xs) (simp_all add: insort_key_map)

lemma distinct_map_insort_key:
  "distinct (map h (insort_key f x xs)) = (h x \<notin> h ` set xs \<and> distinct (map h xs))"
  by (induction xs) (auto simp: set_insort_key)

lemma distinct_map_sort_key: "distinct (map h (sort_key f xs)) = distinct (map h xs)"
  by (induction xs) (simp_all add: distinct_map_insort_key)

lemma distinct_map_coarser:
  assumes "distinct (map f xs)"
    and "\<And>x y. x \<in> set xs \<Longrightarrow> y \<in> set xs \<Longrightarrow> g x = g y \<Longrightarrow> f x = f y"
  shows "distinct (map g xs)"
  using assms
proof (induction xs)
  case Nil
  show ?case by simp
next
  case (Cons x xs)
  have "g x \<notin> g ` set xs"
  proof
    assume "g x \<in> g ` set xs"
    then obtain y where "y \<in> set xs" "g x = g y" by auto
    then have "f x = f y" using Cons.prems(2) [of x y] by simp
    then show False using Cons.prems(1) \<open>y \<in> set xs\<close> by auto
  qed
  moreover have "distinct (map g xs)"
    using Cons by simp
  ultimately show ?case by simp
qed

text \<open>What a group of the seller query is, in terms of the character of its first row.\<close>

lemma seller_group_character:
  assumes "g \<in> set (group_by sellers_key (filter (sellers_where now) (sellers_from db)))"
  obtains c where "s_c (fst g) = Some c" and "c \<in> set (characters db)"
    and "c_guid c = ah_itemowner (s_ah (fst g))" and "live now (s_ah (fst g))"
    and "s_ah (fst g) \<in> set (auctionhouse db)"
    and "snd g = listings_of db now c"
    and "sellers_key (fst g) = (c_guid c, Some (map fold_case (c_name c)))"
proof -
  let ?xs = "filter (sellers_where now) (sellers_from db)"
  have "(fst g, snd g) \<in> set (group_by sellers_key ?xs)" using assms by simp
  from group_by_members [OF this]
  have x: "fst g \<in> set (sellers_from db)" "sellers_where now (fst g)"
    and ms: "snd g = filter (\<lambda>y. sellers_key y = sellers_key (fst g)) ?xs"
    by simp_all
  from x(2) obtain c where c: "s_c (fst g) = Some c" by (auto simp: sellers_where_def)
  have m: "c \<in> set (characters db)" "c_guid c = ah_itemowner (s_ah (fst g))"
    using sellers_from_mem(2) [OF x(1) c] by simp_all
  have l: "snd g = listings_of db now c"
    using ms group_is_listings_of [OF x c] by simp
  have k: "sellers_key (fst g) = (c_guid c, Some (map fold_case (c_name c)))"
    by (simp add: sellers_key_def c m(2))
  have v: "live now (s_ah (fst g))" using x(2) by (simp add: sellers_where_def)
  have a: "s_ah (fst g) \<in> set (auctionhouse db)" by (rule sellers_from_mem(1) [OF x(1)])
  show ?thesis by (rule that [OF c m(1) m(2) v a l k])
qed

lemma scan_seller_group:
  assumes "g \<in> set (group_by sellers_key (filter (sellers_where now) (sellers_from db)))"
    and "scan_seller (sellers_select (sellers_aggregate g)) \<noteq> None"
  shows "the (scan_seller (sellers_select (sellers_aggregate g))) =
     seller_entry db now (the (s_c (fst g)))"
proof -
  from seller_group_character [OF assms(1)] obtain c
    where c: "s_c (fst g) = Some c" and m: "snd g = listings_of db now c"
    by blast
  show ?thesis
    using assms(2)
    by (simp add: scan_seller_select sellers_aggregate_def c m seller_entry_def
        split: if_splits)
qed


lemma owner_key_of_group:
  assumes "g \<in> set (group_by sellers_key (filter (sellers_where now) (sellers_from db)))"
  shows "sellers_key (fst g) =
     (fst (owner_key (the (s_c (fst g)))), Some (snd (owner_key (the (s_c (fst g))))))"
proof -
  from seller_group_character [OF assms] obtain c
    where "s_c (fst g) = Some c"
      and "sellers_key (fst g) = (c_guid c, Some (map fold_case (c_name c)))"
    by blast
  then show ?thesis by (simp add: owner_key_def)
qed

lemma scanned_sellers_characters:
  fixes db now
  defines "gs \<equiv> group_by sellers_key (filter (sellers_where now) (sellers_from db))"
  defines "sellers \<equiv> scan_sellers (map sellers_select (sellers_order (map sellers_aggregate gs)))"
  shows "\<exists>cs. sellers = map (seller_entry db now) cs \<and>
     distinct (map owner_key cs) \<and>
     (\<forall>c \<in> set cs. c \<in> set (characters db) \<and>
        (\<exists>ah \<in> set (auctionhouse db). live now ah \<and> ah_itemowner ah = c_guid c)) \<and>
     (\<forall>ah \<in> set (auctionhouse db). \<forall>c \<in> set (characters db).
        live now ah \<and> c_guid c = ah_itemowner ah \<and>
        in_int64 (int (length (listings_of db now c))) \<and>
        in_int64 (sum_list (map (\<lambda>x. ah_buyoutprice (s_ah x)) (listings_of db now c))) \<longrightarrow>
        (\<exists>c' \<in> set cs. owner_key c' = owner_key c))"
proof -
  let ?xs = "filter (sellers_where now) (sellers_from db)"
  let ?k = "\<lambda>g. (- total_auctions (sellers_aggregate g), - total_value (sellers_aggregate g))"
  let ?sorted = "sort_key ?k gs"
  let ?ok = "\<lambda>g. scan_seller (sellers_select (sellers_aggregate g)) \<noteq> None"
  let ?kept = "filter ?ok ?sorted"
  let ?ch = "\<lambda>g. the (s_c (fst g))"
  let ?cs = "map ?ch ?kept"
  have kept: "g \<in> set gs" if "g \<in> set ?kept" for g using that by simp
  have ord: "sellers_order (map sellers_aggregate gs) = map sellers_aggregate ?sorted"
    by (simp add: sellers_order_def sort_key_map)
  have "sellers = scan_sellers (map sellers_select (map sellers_aggregate ?sorted))"
    by (simp only: sellers_def ord)
  also have "\<dots> = map (\<lambda>a. the (scan_seller (sellers_select a)))
      (filter (\<lambda>a. scan_seller (sellers_select a) \<noteq> None) (map sellers_aggregate ?sorted))"
    by (rule scan_sellers_select)
  also have "\<dots> = map (\<lambda>g. the (scan_seller (sellers_select (sellers_aggregate g)))) ?kept"
    by (simp add: filter_map o_def)
  also have "\<dots> = map (\<lambda>g. seller_entry db now (?ch g)) ?kept"
  proof (rule map_cong [OF refl])
    fix g assume g: "g \<in> set ?kept"
    then have "?ok g" by simp
    then show "the (scan_seller (sellers_select (sellers_aggregate g))) =
        seller_entry db now (?ch g)"
      using scan_seller_group [of g now db] kept [OF g] by (simp add: gs_def)
  qed
  finally have r: "sellers = map (seller_entry db now) ?cs" by (simp add: o_def)
  have "distinct (map (\<lambda>g. sellers_key (fst g)) gs)"
    unfolding gs_def by (rule group_by_distinct)
  then have "distinct (map (\<lambda>g. sellers_key (fst g)) ?sorted)"
    by (simp only: distinct_map_sort_key)
  then have "distinct (map (\<lambda>g. sellers_key (fst g)) ?kept)"
    by (rule distinct_map_filter)
  then have "distinct (map (\<lambda>g. owner_key (?ch g)) ?kept)"
  proof (rule distinct_map_coarser)
    fix x y assume "x \<in> set ?kept" "y \<in> set ?kept"
      and e: "owner_key (?ch x) = owner_key (?ch y)"
    then have "x \<in> set gs" "y \<in> set gs" by simp_all
    then show "sellers_key (fst x) = sellers_key (fst y)"
      using owner_key_of_group [of x now db] owner_key_of_group [of y now db] e
      by (simp add: gs_def)
  qed
  then have d: "distinct (map owner_key ?cs)" by (simp add: o_def)
  have m: "c \<in> set (characters db) \<and>
      (\<exists>ah \<in> set (auctionhouse db). live now ah \<and> ah_itemowner ah = c_guid c)"
    if "c \<in> set ?cs" for c
  proof -
    from that obtain g where g: "g \<in> set ?kept" and c: "c = ?ch g" by auto
    from kept [OF g] have "g \<in> set (group_by sellers_key ?xs)" by (simp add: gs_def)
    from seller_group_character [OF this] obtain c0
      where "s_c (fst g) = Some c0" "c0 \<in> set (characters db)"
        "c_guid c0 = ah_itemowner (s_ah (fst g))" "live now (s_ah (fst g))"
        "s_ah (fst g) \<in> set (auctionhouse db)"
      by blast
    then show ?thesis using c by auto
  qed
  have f: "\<exists>c' \<in> set ?cs. owner_key c' = owner_key c"
    if ah: "ah \<in> set (auctionhouse db)" and c: "c \<in> set (characters db)"
      and l: "live now ah" and o: "c_guid c = ah_itemowner ah"
      and i1: "in_int64 (int (length (listings_of db now c)))"
      and i2: "in_int64 (sum_list (map (\<lambda>x. ah_buyoutprice (s_ah x)) (listings_of db now c)))"
    for ah c
  proof -
    from sellers_from_joined [OF ah c o] obtain ii
      where x0: "\<lparr>s_ah = ah, s_c = Some c, s_ii = ii\<rparr> \<in> set (sellers_from db)" ..
    let ?x0 = "\<lparr>s_ah = ah, s_c = Some c, s_ii = ii\<rparr>"
    have "?x0 \<in> set ?xs" using x0 l by (simp add: sellers_where_def)
    from group_by_covers [OF this, of sellers_key] obtain g
      where g: "g \<in> set (group_by sellers_key ?xs)"
        and k: "sellers_key (fst g) = sellers_key ?x0"
      by auto
    from seller_group_character [OF g] obtain c'
      where c': "s_c (fst g) = Some c'"
        and ms: "snd g = listings_of db now c'"
        and k': "sellers_key (fst g) = (c_guid c', Some (map fold_case (c_name c')))"
      by blast
    from k k' have "(c_guid c', Some (map fold_case (c_name c'))) = sellers_key ?x0"
      by simp
    then have e: "c_guid c' = ah_itemowner ah"
      "map fold_case (c_name c') = map fold_case (c_name c)"
      by (simp_all add: sellers_key_def)
    have e1: "c_guid c' = c_guid c" using e(1) o by simp
    have lo: "listings_of db now c' = listings_of db now c"
      using e1 e(2) by (rule listings_of_cong)
    have ga: "seller_name (sellers_aggregate g) = Some (c_name c')"
      "total_auctions (sellers_aggregate g) = int (length (listings_of db now c))"
      "total_value (sellers_aggregate g) =
         sum_list (map (\<lambda>x. ah_buyoutprice (s_ah x)) (listings_of db now c))"
      "unique_items (sellers_aggregate g) =
         count_distinct (map (\<lambda>r. map_option ii_itemEntry (s_ii r)) (listings_of db now c))"
      by (simp_all add: sellers_aggregate_def c' ms lo)
    have "0 \<le> unique_items (sellers_aggregate g)"
      "unique_items (sellers_aggregate g) \<le> int (length (listings_of db now c))"
      using count_distinct_bounds
        [of "map (\<lambda>r. map_option ii_itemEntry (s_ii r)) (listings_of db now c)"]
      by (simp_all add: ga(4))
    then have u: "in_int64 (unique_items (sellers_aggregate g))"
      using i1 by (rule in_int64_between)
    have "?ok g" using u i1 i2 by (simp add: scan_seller_select ga(1,2,3))
    moreover have "g \<in> set ?sorted" using g by (simp add: gs_def)
    ultimately have "g \<in> set ?kept" by simp
    then have "?ch g \<in> ?ch ` set ?kept" by (rule imageI)
    then have "?ch g \<in> set ?cs" by (simp only: set_map)
    then have "c' \<in> set ?cs" by (simp add: c')
    moreover have "owner_key c' = owner_key c" by (simp add: owner_key_def e1 e(2))
    ultimately show ?thesis ..
  qed
  have m': "\<forall>c \<in> set ?cs. c \<in> set (characters db) \<and>
      (\<exists>ah \<in> set (auctionhouse db). live now ah \<and> ah_itemowner ah = c_guid c)"
    using m by blast
  have f': "\<forall>ah \<in> set (auctionhouse db). \<forall>c \<in> set (characters db).
      live now ah \<and> c_guid c = ah_itemowner ah \<and>
      in_int64 (int (length (listings_of db now c))) \<and>
      in_int64 (sum_list (map (\<lambda>x. ah_buyoutprice (s_ah x)) (listings_of db now c))) \<longrightarrow>
      (\<exists>c' \<in> set ?cs. owner_key c' = owner_key c)"
    using f by blast
  show ?thesis
    by (rule exI [of _ ?cs]) (intro conjI r d m' f')
qed

lemma handleGetSellers_owners:
  "\<exists>cs. response_sellers (fst (handleGetSellers e r)) =
           map (seller_entry (tables e) (UNIX_TIMESTAMP e 0)) cs \<and>
         distinct (map owner_key cs) \<and>
         (distinct (map c_guid (characters (tables e))) \<longrightarrow> distinct (map c_guid cs)) \<and>
         (\<forall>c \<in> set cs. c \<in> set (characters (tables e)) \<and>
            (\<exists>ah \<in> set (auctionhouse (tables e)).
               live (UNIX_TIMESTAMP e 0) ah \<and> ah_itemowner ah = c_guid c)) \<and>
         (fault e 0 = None \<longrightarrow>
            (\<forall>ah \<in> set (auctionhouse (tables e)). \<forall>c \<in> set (characters (tables e)).
               live (UNIX_TIMESTAMP e 0) ah \<and> c_guid c = ah_itemowner ah \<and>
               in_int64 (int (length (listings_of (tables e) (UNIX_TIMESTAMP e 0) c))) \<and>
               in_int64 (sum_list (map (\<lambda>x. ah_buyoutprice (s_ah x))
                  (listings_of (tables e) (UNIX_TIMESTAMP e 0) c))) \<longrightarrow>
               (\<exists>c' \<in> set cs. owner_key c' = owner_key c)))"
proof (cases "fault e 0")
  case (Some msg)
  then have "response_sellers (fst (handleGetSellers e r)) =
      map (seller_entry (tables e) (UNIX_TIMESTAMP e 0)) []"
    by (simp add: response_sellers_eq)
  then show ?thesis using Some by (intro exI [of _ "[]"]) simp
next
  case None
  let ?db = "tables e" and ?now = "UNIX_TIMESTAMP e 0"
  from scanned_sellers_characters [of ?now ?db]
  obtain cs where r: "scan_sellers (map sellers_select (sellers_order (map sellers_aggregate
        (group_by sellers_key (filter (sellers_where ?now) (sellers_from ?db)))))) =
        map (seller_entry ?db ?now) cs"
    and d: "distinct (map owner_key cs)"
    and m': "\<forall>c \<in> set cs. c \<in> set (characters ?db) \<and>
      (\<exists>ah \<in> set (auctionhouse ?db). live ?now ah \<and> ah_itemowner ah = c_guid c)"
    and f': "\<forall>ah \<in> set (auctionhouse ?db). \<forall>c \<in> set (characters ?db).
      live ?now ah \<and> c_guid c = ah_itemowner ah \<and>
      in_int64 (int (length (listings_of ?db ?now c))) \<and>
      in_int64 (sum_list (map (\<lambda>x. ah_buyoutprice (s_ah x)) (listings_of ?db ?now c))) \<longrightarrow>
      (\<exists>c' \<in> set cs. owner_key c' = owner_key c)"
    by (elim exE conjE)
  have r': "response_sellers (fst (handleGetSellers e r)) = map (seller_entry ?db ?now) cs"
    using None r by (simp add: response_sellers_eq)
  have g: "distinct (map c_guid cs)" if u: "distinct (map c_guid (characters ?db))"
  proof (rule distinct_map_coarser [OF d])
    fix x y assume "x \<in> set cs" "y \<in> set cs" and e: "c_guid x = c_guid y"
    then have "x \<in> set (characters ?db)" "y \<in> set (characters ?db)" using m' by blast+
    moreover have "inj_on c_guid (set (characters ?db))" using u by (simp add: distinct_map)
    ultimately have "x = y" using e by (simp add: inj_on_def)
    then show "owner_key x = owner_key y" by simp
  qed
  show ?thesis
    using r' d g m' f' by (intro exI [of _ cs]) simp
qed

text \<open>
  Claim C9. The sellers of the \<open>/api/sellers\<close> response are in order of listing count,
  largest first, and of total value, largest first, among equal counts. Each seller
  stands for a character that owns a live listing, bears the character's name, and
  counts and sums all the joined live listings of that owner. A listing whose owner is
  not a row of the character table takes no part: deleting such listings changes nothing.
  When the query succeeds, every character that owns a live listing has a seller entry,
  provided its figures fit a Go \<open>int\<close>. The listings are grouped by owner: the response
  is the list of the \<open>seller_entry\<close> of characters with pairwise different owner keys,
  so no owner key has two entries, and no owner id has two when the character table
  holds each id once; these characters own live listings, and among them is the owner
  key of every character that owns a live listing and whose figures decode.
\<close>

theorem handleGetSellers_rollup:
  "sorted_wrt seller_before (response_sellers (fst (handleGetSellers e r))) \<and>
   (\<forall>s \<in> set (response_sellers (fst (handleGetSellers e r))).
      \<exists>ah \<in> set (auctionhouse (tables e)). \<exists>c \<in> set (characters (tables e)).
        live (UNIX_TIMESTAMP e 0) ah \<and> c_guid c = ah_itemowner ah \<and> Name s = c_name c \<and>
        TotalAuctions s = int (length (listings_of (tables e) (UNIX_TIMESTAMP e 0) c)) \<and>
        Seller_TotalValue s =
          sum_list (map (\<lambda>x. ah_buyoutprice (s_ah x))
            (listings_of (tables e) (UNIX_TIMESTAMP e 0) c))) \<and>
   handleGetSellers (without_ownerless e) r = handleGetSellers e r \<and>
   (fault e 0 = None \<longrightarrow>
      (\<forall>ah \<in> set (auctionhouse (tables e)). \<forall>c \<in> set (characters (tables e)).
         live (UNIX_TIMESTAMP e 0) ah \<and> c_guid c = ah_itemowner ah \<and>
         in_int64 (int (length (listings_of (tables e) (UNIX_TIMESTAMP e 0) c))) \<and>
         in_int64 (sum_list (map (\<lambda>x. ah_buyoutprice (s_ah x))
            (listings_of (tables e) (UNIX_TIMESTAMP e 0) c))) \<longrightarrow>
         (\<exists>s \<in> set (response_sellers (fst (handleGetSellers e r))).
            map fold_case (Name s) = map fold_case (c_name c) \<and>
            TotalAuctions s = int (length (listings_of (tables e) (UNIX_TIMESTAMP e 0) c))))) \<and>
   (\<exists>cs. response_sellers (fst (handleGetSellers e r)) =
              map (seller_entry (tables e) (UNIX_TIMESTAMP e 0)) cs \<and>
            distinct (map owner_key cs) \<and>
            (distinct (map c_guid (characters (tables e))) \<longrightarrow> distinct (map c_guid cs)) \<and>
            (\<forall>c \<in> set cs. c \<in> set (characters (tables e)) \<and>
               (\<exists>ah \<in> set (auctionhouse (tables e)).
                  live (UNIX_TIMESTAMP e 0) ah \<and> ah_itemowner ah = c_guid c)) \<and>
            (fault e 0 = None \<longrightarrow>
               (\<forall>ah \<in> set (auctionhouse (tables e)). \<forall>c \<in> set (characters (tables e)).
                  live (UNIX_TIMESTAMP e 0) ah \<and> c_guid c = ah_itemowner ah \<and>
                  in_int64 (int (length (listings_of (tables e) (UNIX_TIMESTAMP e 0) c))) \<and>
                  in_int64 (sum_list (map (\<lambda>x. ah_buyoutprice (s_ah x))
                     (listings_of (tables e) (UNIX_TIMESTAMP e 0) c))) \<longrightarrow>
                  (\<exists>c' \<in> set cs. owner_key c' = owner_key c))))"
proof (intro conjI)
  show "sorted_wrt seller_before (response_sellers (fst (handleGetSellers e r)))"
    by (rule handleGetSellers_sorted)
  show "\<forall>s \<in> set (response_sellers (fst (handleGetSellers e r))).
      \<exists>ah \<in> set (auctionhouse (tables e)). \<exists>c \<in> set (characters (tables e)).
        live (UNIX_TIMESTAMP e 0) ah \<and> c_guid c = ah_itemowner ah \<and> Name s = c_name c \<and>
        TotalAuctions s = int (length (listings_of (tables e) (UNIX_TIMESTAMP e 0) c)) \<and>
        Seller_TotalValue s =
          sum_list (map (\<lambda>x. ah_buyoutprice (s_ah x))
            (listings_of (tables e) (UNIX_TIMESTAMP e 0) c))"
    using handleGetSellers_groups [of _ e r] by blast
  show "handleGetSellers (without_ownerless e) r = handleGetSellers e r"
    by (rule handleGetSellers_without_ownerless)
  show "fault e 0 = None \<longrightarrow>
      (\<forall>ah \<in> set (auctionhouse (tables e)). \<forall>c \<in> set (characters (tables e)).
         live (UNIX_TIMESTAMP e 0) ah \<and> c_guid c = ah_itemowner ah \<and>
         in_int64 (int (length (listings_of (tables e) (UNIX_TIMESTAMP e 0) c))) \<and>
         in_int64 (sum_list (map (\<lambda>x. ah_buyoutprice (s_ah x))
            (listings_of (tables e) (UNIX_TIMESTAMP e 0) c))) \<longrightarrow>
         (\<exists>s \<in> set (response_sellers (fst (handleGetSellers e r))).
            map fold_case (Name s) = map fold_case (c_name c) \<and>
            TotalAuctions s = int (length (listings_of (tables e) (UNIX_TIMESTAMP e 0) c))))"
  proof (intro impI ballI)
    fix ah c
    assume f: "fault e 0 = None" and ah: "ah \<in> set (auctionhouse (tables e))"
      and c: "c \<in> set (characters (tables e))"
      and h: "live (UNIX_TIMESTAMP e 0) ah \<and> c_guid c = ah_itemowner ah \<and>
         in_int64 (int (length (listings_of (tables e) (UNIX_TIMESTAMP e 0) c))) \<and>
         in_int64 (sum_list (map (\<lambda>x. ah_buyoutprice (s_ah x))
            (listings_of (tables e) (UNIX_TIMESTAMP e 0) c)))"
    from scanned_sellers_complete [OF ah c, of "UNIX_TIMESTAMP e 0"] h f
    show "\<exists>s \<in> set (response_sellers (fst (handleGetSellers e r))).
            map fold_case (Name s) = map fold_case (c_name c) \<and>
            TotalAuctions s = int (length (listings_of (tables e) (UNIX_TIMESTAMP e 0) c))"
      by (simp add: response_sellers_eq) blast
  qed
  show "\<exists>cs. response_sellers (fst (handleGetSellers e r)) =
             map (seller_entry (tables e) (UNIX_TIMESTAMP e 0)) cs \<and>
           distinct (map owner_key cs) \<and>
           (distinct (map c_guid (characters (tables e))) \<longrightarrow> distinct (map c_guid cs)) \<and>
           (\<forall>c \<in> set cs. c \<in> set (characters (tables e)) \<and>
              (\<exists>ah \<in> set (auctionhouse (tables e)).
                 live (UNIX_TIMESTAMP e 0) ah \<and> ah_itemowner ah = c_guid c)) \<and>
           (fault e 0 = None \<longrightarrow>
              (\<forall>ah \<in> set (auctionhouse (tables e)). \<forall>c \<in> set (characters (tables e)).
                 live (UNIX_TIMESTAMP e 0) ah \<and> c_guid c = ah_itemowner ah \<and>
                 in_int64 (int (length (listings_of (tables e) (UNIX_TIMESTAMP e 0) c))) \<and>
                 in_int64 (sum_list (map (\<lambda>x. ah_buyoutprice (s_ah x))
                    (listings_of (tables e) (UNIX_TIMESTAMP e 0) c))) \<longrightarrow>
                 (\<exists>c' \<in> set cs. owner_key c' = owner_key c)))"
    by (rule handleGetSellers_owners)
qed

theorem handleGetSellers_rollup_witness:
  "response_sellers (fst (handleGetSellers (sample_env 500) no_params)) =
     [\<lparr>Name = ''Thrall'', TotalAuctions = 2, Seller_TotalValue = 5300, Seller_UniqueItems = 1\<rparr>,
      \<lparr>Name = ''Jaina'', TotalAuctions = 1, Seller_TotalValue = 700, Seller_UniqueItems = 1\<rparr>] \<and>
   sorted_wrt seller_before (response_sellers (fst (handleGetSellers (sample_env 500) no_params))) \<and>
   map ah_id (auctionhouse (tables (without_ownerless (sample_env 500)))) = [1, 2, 4] \<and>
   handleGetSellers (without_ownerless (sample_env 500)) no_params =
     handleGetSellers (sample_env 500) no_params \<and>
   fault (sample_env 500) 0 = None \<and>
   sample_auction 2 102 8 700 900 0 \<in> set (auctionhouse (tables (sample_env 500))) \<and>
   \<lparr>c_guid = 8, c_name = ''Jaina''\<rparr> \<in> set (characters (tables (sample_env 500))) \<and>
   live (UNIX_TIMESTAMP (sample_env 500) 0) (sample_auction 2 102 8 700 900 0) \<and>
   length (listings_of (tables (sample_env 500)) (UNIX_TIMESTAMP (sample_env 500) 0)
     \<lparr>c_guid = 8, c_name = ''Jaina''\<rparr>) = 1 \<and>
   list_ex (\<lambda>s. map fold_case (Name s) = map fold_case ''Jaina'' \<and> TotalAuctions s = 1)
     (response_sellers (fst (handleGetSellers (sample_env 500) no_params))) \<and>
   response_sellers (fst (handleGetSellers (sample_env 500) no_params)) =
     map (seller_entry (tables (sample_env 500)) (UNIX_TIMESTAMP (sample_env 500) 0))
       [\<lparr>c_guid = 7, c_name = ''Thrall''\<rparr>, \<lparr>c_guid = 8, c_name = ''Jaina''\<rparr>] \<and>
   distinct (map c_guid (characters (tables (sample_env 500)))) \<and>
   (\<exists>cs. response_sellers (fst (handleGetSellers (sample_env 500) no_params)) =
           map (seller_entry (tables (sample_env 500)) (UNIX_TIMESTAMP (sample_env 500) 0)) cs \<and>
         distinct (map owner_key cs) \<and> distinct (map c_guid cs))"
proof -
  let ?e = "sample_env 500"
  let ?ah = "sample_auction 2 102 8 700 900 0"
  let ?c = "\<lparr>c_guid = 8, c_name = ''Jaina''\<rparr>"
  note th = handleGetSellers_rollup [of ?e no_params]
  have r: "response_sellers (fst (handleGetSellers ?e no_params)) =
     [\<lparr>Name = ''Thrall'', TotalAuctions = 2, Seller_TotalValue = 5300, Seller_UniqueItems = 1\<rparr>,
      \<lparr>Name = ''Jaina'', TotalAuctions = 1, Seller_TotalValue = 700, Seller_UniqueItems = 1\<rparr>]"
    by code_simp
  have o: "map ah_id (auctionhouse (tables (without_ownerless ?e))) = [1, 2, 4]"
    by code_simp
  have f: "fault ?e 0 = None" by (simp add: sample_env_def)
  have a: "?ah \<in> set (auctionhouse (tables ?e))"
    and c: "?c \<in> set (characters (tables ?e))"
    by (simp_all add: sample_env_def sample_db_def)
  have l: "live (UNIX_TIMESTAMP ?e 0) ?ah" "c_guid ?c = ah_itemowner ?ah"
    by (simp_all add: sample_env_def live_def sample_auction_def)
  have n: "length (listings_of (tables ?e) (UNIX_TIMESTAMP ?e 0) ?c) = 1"
    by code_simp
  have v: "sum_list (map (\<lambda>x. ah_buyoutprice (s_ah x))
      (listings_of (tables ?e) (UNIX_TIMESTAMP ?e 0) ?c)) = 700"
    by code_simp
  have i: "in_int64 (int (length (listings_of (tables ?e) (UNIX_TIMESTAMP ?e 0) ?c)))"
    "in_int64 (sum_list (map (\<lambda>x. ah_buyoutprice (s_ah x))
      (listings_of (tables ?e) (UNIX_TIMESTAMP ?e 0) ?c)))"
    unfolding n v by (simp_all add: in_int64_def minInt64_def maxInt64_def)
  from th f a c l i
  have "\<exists>s \<in> set (response_sellers (fst (handleGetSellers ?e no_params))).
      map fold_case (Name s) = map fold_case (c_name ?c) \<and>
      TotalAuctions s = int (length (listings_of (tables ?e) (UNIX_TIMESTAMP ?e 0) ?c))"
    by blast
  then have x: "list_ex (\<lambda>s. map fold_case (Name s) = map fold_case ''Jaina'' \<and> TotalAuctions s = 1)
     (response_sellers (fst (handleGetSellers ?e no_params)))"
    unfolding n by (simp add: list_ex_iff)
  from th have s: "sorted_wrt seller_before (response_sellers (fst (handleGetSellers ?e no_params)))"
    and w: "handleGetSellers (without_ownerless ?e) no_params = handleGetSellers ?e no_params"
    by blast+
  have y: "response_sellers (fst (handleGetSellers ?e no_params)) =
     map (seller_entry (tables ?e) (UNIX_TIMESTAMP ?e 0))
       [\<lparr>c_guid = 7, c_name = ''Thrall''\<rparr>, \<lparr>c_guid = 8, c_name = ''Jaina''\<rparr>]"
    by code_simp
  have u: "distinct (map c_guid (characters (tables ?e)))"
    by (simp add: sample_env_def sample_db_def)
  from th [THEN conjunct2, THEN conjunct2, THEN conjunct2, THEN conjunct2]
  obtain cs where "response_sellers (fst (handleGetSellers ?e no_params)) =
        map (seller_entry (tables ?e) (UNIX_TIMESTAMP ?e 0)) cs"
    and "distinct (map owner_key cs)"
    and "distinct (map c_guid (characters (tables ?e))) \<longrightarrow> distinct (map c_guid cs)"
    by (elim exE conjE)
  then have z: "\<exists>cs. response_sellers (fst (handleGetSellers ?e no_params)) =
           map (seller_entry (tables ?e) (UNIX_TIMESTAMP ?e 0)) cs \<and>
         distinct (map owner_key cs) \<and> distinct (map c_guid cs)"
    using u by blast
  show ?thesis
    using r s o w f a c l(1) n x y u z by (intro conjI)
qed

end
